theory Spec2Isabelle
  imports Main "HOL-Library.Multiset" "HOL-Library.List_Lexorder"
begin

section \<open>The registry client of src/ficsitApp.ts\<close>

text \<open>
  The module keeps three pieces of process-wide state: the debug flag \<open>useTempMods\<close>, the
  overlay array \<open>tempMods\<close> and the cache object \<open>cachedFetch\<close>. The overlay array holds
  references to mod objects that its callers made, and so do the arrays that
  \<open>getAvailableMods\<close> caches: those objects are kept in a store, so that a change of one
  shows wherever it is referred to. Every exported function is modelled as a function from
  the state before the call to its outcome (a thrown value or a returned value) and the
  state after it. \<open>Date.now()\<close> is the argument \<open>now\<close>; the remote registry is the
  argument \<open>R\<close>, which tells what the endpoint would answer to each query and how long
  the round trip takes. A call runs to its end before the next one starts (no interleaving
  at the \<open>await\<close>); calls to \<open>warn\<close> and \<open>debug\<close> are not modelled.
\<close>

subsection \<open>Records of the registry\<close>

datatype stability = alpha | beta | release

text \<open>
  A date field arrives as a JSON string (or is absent) and is replaced by a \<open>Date\<close>
  object or \<open>null\<close> when a response is normalised.
\<close>

datatype date_value = JsonDate string | DateObject string | NullDate

record FicsitAppUser =
  username :: string
  avatar :: string

record FicsitAppAuthor =
  mod_id_Author :: string
  user :: FicsitAppUser
  role :: string

record FicsitAppVersion =
  mod_id :: string
  version :: string
  sml_version :: string
  changelog :: string
  downloads :: string
  stability :: stability
  link :: string

record FicsitAppMod =
  id_Mod :: string
  name :: string
  short_description :: string
  full_description :: string
  logo :: string
  source_url :: string
  views :: int
  downloads_Mod :: int
  hotness :: int
  popularity :: int
  last_version_date :: date_value
  authors :: "FicsitAppAuthor list"
  versions :: "FicsitAppVersion list"

record FicsitAppSMLVersion =
  id_SML :: string
  version_SML :: string
  satisfactory_version_SML :: int
  stability_SML :: stability
  link_SML :: string
  changelog_SML :: string
  date_SML :: date_value
  bootstrap_version :: string

record FicsitAppBootstrapperVersion =
  id_Bootstrapper :: string
  version_Bootstrapper :: string
  satisfactory_version_Bootstrapper :: int
  stability_Bootstrapper :: stability
  link_Bootstrapper :: string
  changelog_Bootstrapper :: string
  date_Bootstrapper :: date_value

text \<open>\<open>x ? new Date(x) : null\<close>: the empty string is falsy, a \<open>Date\<close> object is truthy.\<close>

fun toDate :: "date_value \<Rightarrow> date_value" where
  "toDate (JsonDate d) = (if d = [] then NullDate else DateObject d)"
| "toDate (DateObject d) = DateObject d"
| "toDate NullDate = NullDate"

subsection \<open>Names imported from modules that are not among the sources\<close>

text \<open>
  \<open>compare\<close> and \<open>satisfies\<close> come from the semver package; \<open>minSMLVersion\<close>,
  \<open>SMLModID\<close> (module smlHandler) and \<open>BootstrapperModID\<close> (module bootstrapperHandler)
  are constants whose values the sources do not show. They are parameters of the model.
  \<open>compare\<close> is taken as a total function: the version strings of the registry are valid
  semantic versions, on which it does not throw.
\<close>

record imported =
  compare :: "string \<Rightarrow> string \<Rightarrow> int"
  satisfies :: "string \<Rightarrow> string \<Rightarrow> bool"
  minSMLVersion :: string
  SMLModID :: string
  BootstrapperModID :: string

text \<open>
  Modelled from the spec: \<open>versionSatisfiesAll\<close> of module utils is not among the
  sources. The spec: constraint satisfaction is semantic-version range matching, and
  multiple constraints must all hold simultaneously (logical AND).
\<close>

definition versionSatisfiesAll :: "imported \<Rightarrow> string \<Rightarrow> string list \<Rightarrow> bool" where
  "versionSatisfiesAll I v versionConstraints = list_all (satisfies I v) versionConstraints"

text \<open>
  Modelled from the spec: \<open>removeArrayElementWhere\<close> of module utils is not among the
  sources. The spec: the overlay mod with that identifier, or the matching version entry,
  is deleted if present. The array that results holds the elements that do not meet the
  condition, in their order.
\<close>

definition removeArrayElementWhere :: "'a list \<Rightarrow> ('a \<Rightarrow> bool) \<Rightarrow> 'a list" where
  "removeArrayElementWhere array condition = filter (\<lambda>element. \<not> condition element) array"

subsection \<open>Module state\<close>

text \<open>
  A mod object passed to \<open>addTempMod\<close> is known by its reference; \<open>objects\<close> is the store
  of these objects (with their \<open>versions\<close> arrays), which only the module changes. An
  element of the array that \<open>getAvailableMods\<close> caches is an object made from the response,
  held by that array alone, or an object of the overlay, held by reference.
\<close>

type_synonym ref = nat

datatype mod_element = Fetched FicsitAppMod | OverlayMod ref

datatype payload =
    LinkData string
  | ModsData "mod_element list"
  | ModData FicsitAppMod
  | VersionsData "FicsitAppVersion list"
  | SMLVersionsData "FicsitAppSMLVersion list"
  | BootstrapperVersionsData "FicsitAppBootstrapperVersion list"

record FicsitAppFetch =
  time :: int
  data :: payload

text \<open>
  \<open>requests\<close> counts the calls of \<open>request\<close> made so far: the outbound network calls are
  an effect of the module, kept in the state so that "no refetch" can be stated.
\<close>

record module_state =
  useTempMods :: bool
  tempMods :: "ref list"
  cachedFetch :: "string \<rightharpoonup> FicsitAppFetch"
  requests :: nat
  objects :: "ref \<Rightarrow> FicsitAppMod"

text \<open>The state when the module is loaded, with the callers' mod objects in the store.\<close>

definition initial :: "(ref \<Rightarrow> FicsitAppMod) \<Rightarrow> module_state" where
  "initial h =
     \<lparr>useTempMods = False, tempMods = [], cachedFetch = Map.empty, requests = 0, objects = h\<rparr>"

text \<open>The mod objects of the overlay, as they are now.\<close>

definition overlay :: "module_state \<Rightarrow> FicsitAppMod list" where
  "overlay s = map (objects s) (tempMods s)"

subsection \<open>The overlay\<close>

definition setUseTempMods :: "bool \<Rightarrow> module_state \<Rightarrow> module_state" where
  "setUseTempMods enable s = s\<lparr>useTempMods := enable\<rparr>"

text \<open>Despite its name the source's \<open>getUseTempMods\<close> assigns the flag and returns nothing.\<close>

definition getUseTempMods :: "bool \<Rightarrow> module_state \<Rightarrow> module_state" where
  "getUseTempMods use s = s\<lparr>useTempMods := use\<rparr>"

text \<open>
  \<open>addTempMod\<close> pushes the reference it is given. \<open>array.find(p)\<close> returns the first
  element that meets \<open>p\<close>, a reference; pushing to the \<open>versions\<close> of the object found
  changes the object in the store.
\<close>

definition addTempMod :: "ref \<Rightarrow> module_state \<Rightarrow> module_state" where
  "addTempMod m s = (if useTempMods s then s\<lparr>tempMods := tempMods s @ [m]\<rparr> else s)"

definition addTempModVersion :: "FicsitAppVersion \<Rightarrow> module_state \<Rightarrow> module_state" where
  "addTempModVersion v s =
     (if useTempMods s then
        (case find (\<lambda>m. id_Mod (objects s m) = mod_id v) (tempMods s) of
           Some tempMod \<Rightarrow>
             s\<lparr>objects := (objects s)
                  (tempMod := (objects s tempMod)\<lparr>versions := versions (objects s tempMod) @ [v]\<rparr>)\<rparr>
         | None \<Rightarrow> s)
      else s)"

definition removeTempMod :: "string \<Rightarrow> module_state \<Rightarrow> module_state" where
  "removeTempMod modID s =
     (if useTempMods s
      then s\<lparr>tempMods := removeArrayElementWhere (tempMods s) (\<lambda>m. id_Mod (objects s m) = modID)\<rparr>
      else s)"

definition removeTempModVersion :: "string \<Rightarrow> string \<Rightarrow> module_state \<Rightarrow> module_state" where
  "removeTempModVersion modID ver s =
     (if useTempMods s then
        (case find (\<lambda>tempMod. id_Mod (objects s tempMod) = modID) (tempMods s) of
           Some m \<Rightarrow>
             s\<lparr>objects := (objects s)
                  (m := (objects s m)\<lparr>versions :=
                          removeArrayElementWhere (versions (objects s m))
                            (\<lambda>modVersion. version modVersion = ver)\<rparr>)\<rparr>
         | None \<Rightarrow> s)
      else s)"

subsection \<open>The query executor\<close>

text \<open>
  What one POST to the endpoint comes back with. The request is rejected (no connection, or
  a status other than 2xx), or a body arrives; the body is not JSON, or it parses; the
  parsed value is \<open>null\<close>, or it is a value with a \<open>data\<close> member to read. The \<open>data\<close>
  member is \<open>undefined\<close> (or \<open>null\<close>), or carries a truthy \<open>errors\<close> field, or is the
  answer to the query.
\<close>

text \<open>The value of an \<open>errors\<close> field: the \<open>Error\<close> built by the executor, or the remote's.\<close>

datatype errors_value = Error string | RemoteErrors string

datatype 'd query_result = Undefined | Errors errors_value | Result 'd

datatype 'd json = JsonNull | JsonValue "'d query_result"

datatype 'd body = NotJson | Json "'d json"

datatype 'd api_response = RequestRejected | Body "'d body"




abbreviation DataErrors :: "string \<Rightarrow> 'd api_response" where
  "DataErrors e \<equiv> Body (Json (JsonValue (Errors (RemoteErrors e))))"

abbreviation Data :: "'d \<Rightarrow> 'd api_response" where
  "Data d \<equiv> Body (Json (JsonValue (Result d)))"

text \<open>
  The arguments of \<open>fiscitApiQuery\<close>: the query text and the optional \<open>variables\<close>, an
  object of values of any type. \<open>JSON.stringify\<close> throws on some values (a circular
  structure, a BigInt); the functions of this module pass strings.
\<close>

datatype js_value = JsString string | Unserialisable

type_synonym variables = "(string \<times> js_value) list"

text \<open>What the statements inside the \<open>try\<close> block can throw.\<close>

datatype exception = StringifyTypeError | RequestError | SyntaxError | NullTypeError

text \<open>
  \<open>JSON.stringify({query, variables})\<close>; the text of the body is not modelled, the
  endpoint's answer being given apart.
\<close>

definition JSON_stringify :: "string \<Rightarrow> variables option \<Rightarrow> exception + unit" where
  "JSON_stringify query vars =
     (case vars of
        None \<Rightarrow> Inr ()
      | Some kvs \<Rightarrow> if list_ex (\<lambda>kv. snd kv = Unserialisable) kvs then Inl StringifyTypeError else Inr ())"

fun request :: "'d api_response \<Rightarrow> exception + 'd body" where
  "request RequestRejected = Inl RequestError"
| "request (Body b) = Inr b"

fun JSON_parse :: "'d body \<Rightarrow> exception + 'd json" where
  "JSON_parse NotJson = Inl SyntaxError"
| "JSON_parse (Json j) = Inr j"

text \<open>\<open>response.data\<close>: reading a member of \<open>null\<close> throws.\<close>

fun data_member :: "'d json \<Rightarrow> exception + 'd query_result" where
  "data_member JsonNull = Inl NullTypeError"
| "data_member (JsonValue d) = Inr d"

text \<open>
  The \<open>try\<close> block: what it returns or throws, and the state it leaves (a request is
  counted once \<open>request\<close> is called).
\<close>

definition try_block ::
  "string \<Rightarrow> variables option \<Rightarrow> 'd api_response \<Rightarrow> module_state
     \<Rightarrow> (exception + 'd query_result) \<times> module_state" where
  "try_block query vars response s =
     (case JSON_stringify query vars of
        Inl e \<Rightarrow> (Inl e, s)
      | Inr body \<Rightarrow>
          (let s1 = s\<lparr>requests := Suc (requests s)\<rparr> in
           case request response of
             Inl e \<Rightarrow> (Inl e, s1)
           | Inr received \<Rightarrow>
               (case JSON_parse received of
                  Inl e \<Rightarrow> (Inl e, s1)
                | Inr parsed \<Rightarrow> (data_member parsed, s1))))"

text \<open>
  A call of an asynchronous function ends in a value or in a thrown one (a rejected
  promise): the outcome of a call is a sum, \<open>Inl\<close> the thrown value. A call throws the
  value of an \<open>errors\<close> field, a \<open>ModNotFoundError\<close> with its message, or a
  \<open>TypeError\<close>: reading \<open>errors\<close> of an undefined result, or using a cached payload as
  a value of another kind than the one stored under that request identity.
\<close>

datatype thrown = Thrown errors_value | ModNotFoundError string | TypeError

text \<open>\<open>fiscitApiQuery\<close>: the \<open>try\<close> block, and the \<open>catch\<close> clause for whatever it throws.\<close>

definition fiscitApiQuery ::
  "string \<Rightarrow> variables option \<Rightarrow> 'd api_response \<Rightarrow> module_state
     \<Rightarrow> (thrown + 'd query_result) \<times> module_state" where
  "fiscitApiQuery query vars response s =
     (case try_block query vars response s of
        (Inr d, s1) \<Rightarrow> (Inr d, s1)
      | (Inl e, s1) \<Rightarrow> (Inr (Errors (Error ''Network error. Please try again later.'')), s1))"

subsection \<open>The cache\<close>

definition fetchCooldown :: int where
  "fetchCooldown = 5 * 60 * 1000"

definition cooldownPassed :: "module_state \<Rightarrow> int \<Rightarrow> string \<Rightarrow> bool" where
  "cooldownPassed s now action =
     (case cachedFetch s action of
        Some entry \<Rightarrow> now - time entry > fetchCooldown
      | None \<Rightarrow> True)"

definition getCache :: "module_state \<Rightarrow> string \<Rightarrow> payload option" where
  "getCache s action = map_option data (cachedFetch s action)"

definition setCache :: "int \<Rightarrow> string \<Rightarrow> payload \<Rightarrow> module_state \<Rightarrow> module_state" where
  "setCache now action d s =
     s\<lparr>cachedFetch := (cachedFetch s)(action \<mapsto> \<lparr>time = now, data = d\<rparr>)\<rparr>"

subsection \<open>The remote registry\<close>

text \<open>
  The answers of the endpoint to the six queries of the module, in the shape the code reads
  them: \<open>getMod.version.link\<close> (each level may be \<open>null\<close>), \<open>getMods.mods\<close>,
  \<open>getMod\<close>, \<open>getMod.versions\<close>, \<open>getSMLVersions.sml_versions\<close> and
  \<open>getBootstrapVersions.bootstrap_versions\<close>. \<open>latency\<close> is the time between the
  \<open>Date.now()\<close> of \<open>cooldownPassed\<close> and the one of \<open>setCache\<close>.
\<close>

record remote =
  latency :: int
  getModVersionLink_response :: "string \<Rightarrow> string \<Rightarrow> string option option api_response"
  getMods_response :: "FicsitAppMod list api_response"
  getMod_response :: "string \<Rightarrow> FicsitAppMod option api_response"
  getModVersions_response :: "string \<Rightarrow> FicsitAppVersion list option api_response"
  getSMLVersions_response :: "FicsitAppSMLVersion list api_response"
  getBootstrapVersions_response :: "FicsitAppBootstrapperVersion list api_response"

text \<open>The query texts, with their white space shortened.\<close>

definition getModDownloadLink_query :: string where
  "getModDownloadLink_query =
     ''query($modID: ModID!, $version: String!){ getMod(modId: $modID) { version(version: $version) { link } } }''"

definition getAvailableMods_query :: string where
  "getAvailableMods_query =
     ''{ getMods(filter: { limit: 100 }) { mods { name, short_description, full_description, id, logo, views, downloads, hotness, popularity, last_version_date, authors { mod_id, user { username, avatar }, role }, versions { mod_id, version, sml_version, changelog, downloads, stability, link } } } }''"

definition getMod_query :: string where
  "getMod_query =
     ''query($modID: ModID!){ getMod(modId: $modID) { name, short_description, full_description, id, logo, downloads, hotness, popularity, last_version_date, authors { mod_id, user { username, avatar }, role }, versions { mod_id, version, sml_version, changelog, downloads, stability, link } } }''"

definition getModVersions_query :: string where
  "getModVersions_query =
     ''query($modID: ModID!){ getMod(modId: $modID) { name, id, versions(filter: { limit: 100 }) { mod_id, version, sml_version, changelog, downloads, stability, link } } }''"

definition getSMLVersions_query :: string where
  "getSMLVersions_query =
     ''{ getSMLVersions(filter: {limit: 100}) { sml_versions { id, version, satisfactory_version stability, link, changelog, date, bootstrap_version } } }''"

definition getBootstrapVersions_query :: string where
  "getBootstrapVersions_query =
     ''{ getBootstrapVersions(filter: {limit: 100}) { bootstrap_versions { id, version, satisfactory_version, stability, link, changelog, date } } }''"

definition API_URL :: string where
  "API_URL = ''https://api.ficsit.app''"

text \<open>
  \<open>getCache\<close> returns a value of any type; each function returns it as the type it
  declares. An element of a cached array of mods that is an overlay object is the object in
  the store.
\<close>

fun element :: "(ref \<Rightarrow> FicsitAppMod) \<Rightarrow> mod_element \<Rightarrow> FicsitAppMod" where
  "element h (Fetched m) = m"
| "element h (OverlayMod a) = h a"

fun asLink :: "payload option \<Rightarrow> thrown + string" where
  "asLink (Some (LinkData l)) = Inr l"
| "asLink _ = Inl TypeError"

fun asMods :: "(ref \<Rightarrow> FicsitAppMod) \<Rightarrow> payload option \<Rightarrow> thrown + FicsitAppMod list" where
  "asMods h (Some (ModsData es)) = Inr (map (element h) es)"
| "asMods h _ = Inl TypeError"

fun asMod :: "payload option \<Rightarrow> thrown + FicsitAppMod" where
  "asMod (Some (ModData m)) = Inr m"
| "asMod _ = Inl TypeError"

fun asVersions :: "payload option \<Rightarrow> thrown + FicsitAppVersion list" where
  "asVersions (Some (VersionsData vs)) = Inr vs"
| "asVersions _ = Inl TypeError"

fun asSMLVersions :: "payload option \<Rightarrow> thrown + FicsitAppSMLVersion list" where
  "asSMLVersions (Some (SMLVersionsData vs)) = Inr vs"
| "asSMLVersions _ = Inl TypeError"

fun asBootstrapperVersions :: "payload option \<Rightarrow> thrown + FicsitAppBootstrapperVersion list" where
  "asBootstrapperVersions (Some (BootstrapperVersionsData vs)) = Inr vs"
| "asBootstrapperVersions _ = Inl TypeError"

subsection \<open>Queries on mods\<close>

text \<open>
  In each function the first case is the \<open>await\<close> of a rejected \<open>fiscitApiQuery\<close>, which
  would throw on; the second is the reading of \<open>res.errors\<close> on an undefined \<open>res\<close>.
\<close>

definition getModDownloadLink ::
  "remote \<Rightarrow> int \<Rightarrow> string \<Rightarrow> string \<Rightarrow> module_state \<Rightarrow> (thrown + string) \<times> module_state" where
  "getModDownloadLink R now modID ver s =
     (let requestID = ''getModDownloadLink_'' @ modID @ ''_'' @ ver in
      if cooldownPassed s now requestID then
        (case fiscitApiQuery getModDownloadLink_query
                (Some [(''modID'', JsString modID), (''version'', JsString ver)])
                (getModVersionLink_response R modID ver) s of
           (Inl e, s1) \<Rightarrow> (Inl e, s1)
         | (Inr Undefined, s1) \<Rightarrow> (Inl TypeError, s1)
         | (Inr (Errors e), s1) \<Rightarrow> (Inl (Thrown e), s1)
         | (Inr (Result (Some (Some l))), s1) \<Rightarrow>
             (let s2 = setCache (now + latency R) requestID (LinkData (API_URL @ l)) s1
              in (asLink (getCache s2 requestID), s2))
         | (Inr (Result _), s1) \<Rightarrow>
             (if list_ex (\<lambda>m. id_Mod (objects s1 m) = modID) (tempMods s1)
              then (Inl (ModNotFoundError (modID @ ''@'' @ ver @
                      '' is a temporary mod. No download link available'')), s1)
              else (Inl (ModNotFoundError (modID @ ''@'' @ ver @ '' not found'')), s1)))
      else (asLink (getCache s requestID), s))"

definition getAvailableMods ::
  "remote \<Rightarrow> int \<Rightarrow> module_state \<Rightarrow> (thrown + FicsitAppMod list) \<times> module_state" where
  "getAvailableMods R now s =
     (let requestID = ''getAvailableMods'' in
      if cooldownPassed s now requestID then
        (case fiscitApiQuery getAvailableMods_query None (getMods_response R) s of
           (Inl e, s1) \<Rightarrow> (Inl e, s1)
         | (Inr Undefined, s1) \<Rightarrow> (Inl TypeError, s1)
         | (Inr (Errors e), s1) \<Rightarrow> (Inl (Thrown e), s1)
         | (Inr (Result resGetMods), s1) \<Rightarrow>
             (let dated = map (\<lambda>m. Fetched (m\<lparr>last_version_date := toDate (last_version_date m)\<rparr>))
                            resGetMods;
                  pushed = (if useTempMods s1 then dated @ map OverlayMod (tempMods s1) else dated);
                  s2 = setCache (now + latency R) requestID (ModsData pushed) s1
              in (asMods (objects s2) (getCache s2 requestID), s2)))
      else (asMods (objects s) (getCache s requestID), s))"

definition getMod ::
  "remote \<Rightarrow> int \<Rightarrow> string \<Rightarrow> module_state \<Rightarrow> (thrown + FicsitAppMod) \<times> module_state" where
  "getMod R now modID s =
     (let requestID = ''getMod_'' @ modID in
      if cooldownPassed s now requestID then
        (case fiscitApiQuery getMod_query (Some [(''modID'', JsString modID)])
                (getMod_response R modID) s of
           (Inl e, s1) \<Rightarrow> (Inl e, s1)
         | (Inr Undefined, s1) \<Rightarrow> (Inl TypeError, s1)
         | (Inr (Errors e), s1) \<Rightarrow> (Inl (Thrown e), s1)
         | (Inr (Result None), s1) \<Rightarrow>
             (case (if useTempMods s1
                    then find (\<lambda>m. id_Mod (objects s1 m) = modID) (tempMods s1) else None) of
                Some tempMod \<Rightarrow> (Inr (objects s1 tempMod), s1)
              | None \<Rightarrow> (Inl (ModNotFoundError (''Mod '' @ modID @ '' not found'')), s1))
         | (Inr (Result (Some resGetMod)), s1) \<Rightarrow>
             (let s2 = setCache (now + latency R) requestID
                         (ModData (resGetMod\<lparr>last_version_date :=
                                     toDate (last_version_date resGetMod)\<rparr>)) s1
              in (asMod (getCache s2 requestID), s2)))
      else (asMod (getCache s requestID), s))"

text \<open>
  \<open>getModVersions\<close> returns an array by reference: the one held by the cache entry of its
  request identity, or the \<open>versions\<close> array of the overlay mod found. The model returns
  the place of the array together with its content, for the caller that sorts it in place.
\<close>

datatype versions_array = CachedArray string | OverlayArray ref

definition getModVersions ::
  "remote \<Rightarrow> int \<Rightarrow> string \<Rightarrow> module_state
     \<Rightarrow> (thrown + versions_array \<times> FicsitAppVersion list) \<times> module_state" where
  "getModVersions R now modID s =
     (let requestID = ''getModVersions_'' @ modID in
      if cooldownPassed s now requestID then
        (case fiscitApiQuery getModVersions_query (Some [(''modID'', JsString modID)])
                (getModVersions_response R modID) s of
           (Inl e, s1) \<Rightarrow> (Inl e, s1)
         | (Inr Undefined, s1) \<Rightarrow> (Inl TypeError, s1)
         | (Inr (Errors e), s1) \<Rightarrow> (Inl (Thrown e), s1)
         | (Inr (Result (Some resVersions)), s1) \<Rightarrow>
             (let s2 = setCache (now + latency R) requestID (VersionsData resVersions) s1
              in (map_sum id (Pair (CachedArray requestID)) (asVersions (getCache s2 requestID)), s2))
         | (Inr (Result None), s1) \<Rightarrow>
             (case (if useTempMods s1
                    then find (\<lambda>m. id_Mod (objects s1 m) = modID) (tempMods s1) else None) of
                Some tempMod \<Rightarrow> (Inr (OverlayArray tempMod, versions (objects s1 tempMod)), s1)
              | None \<Rightarrow> (Inl (ModNotFoundError (''Mod '' @ modID @ '' not found'')), s1)))
      else (map_sum id (Pair (CachedArray requestID)) (asVersions (getCache s requestID)), s))"

subsection \<open>Sorting in place\<close>

text \<open>
  \<open>array.sort(comparefn)\<close>, as a stable insertion sort: an element goes before the first
  one that \<open>comparefn\<close> does not put before it. For a consistent \<open>comparefn\<close> this is the
  order every stable sort gives.
\<close>

fun insert_sorted :: "('a \<Rightarrow> 'a \<Rightarrow> int) \<Rightarrow> 'a \<Rightarrow> 'a list \<Rightarrow> 'a list" where
  "insert_sorted comparefn x [] = [x]"
| "insert_sorted comparefn x (y # ys) =
     (if comparefn x y \<le> 0 then x # y # ys else y # insert_sorted comparefn x ys)"

definition array_sort :: "('a \<Rightarrow> 'a \<Rightarrow> int) \<Rightarrow> 'a list \<Rightarrow> 'a list" where
  "array_sort comparefn xs = foldr (insert_sorted comparefn) xs []"

text \<open>\<open>array[0]\<close> is \<open>undefined\<close> on an empty array.\<close>

fun first :: "'a list \<Rightarrow> 'a option" where
  "first [] = None"
| "first (x # xs) = Some x"

text \<open>
  The array sorted is the object the cache entry (or the overlay mod) holds, so the sort
  shows there: the payload of the entry is replaced, its time stays.
\<close>

definition mutateCached :: "string \<Rightarrow> payload \<Rightarrow> module_state \<Rightarrow> module_state" where
  "mutateCached requestID d s =
     (case cachedFetch s requestID of
        Some entry \<Rightarrow> s\<lparr>cachedFetch := (cachedFetch s)(requestID \<mapsto> entry\<lparr>data := d\<rparr>)\<rparr>
      | None \<Rightarrow> s)"

fun mutateVersions :: "versions_array \<Rightarrow> FicsitAppVersion list \<Rightarrow> module_state \<Rightarrow> module_state" where
  "mutateVersions (CachedArray requestID) vs s = mutateCached requestID (VersionsData vs) s"
| "mutateVersions (OverlayArray m) vs s =
     s\<lparr>objects := (objects s)(m := (objects s m)\<lparr>versions := vs\<rparr>)\<rparr>"

definition getModLatestVersion ::
  "imported \<Rightarrow> remote \<Rightarrow> int \<Rightarrow> string \<Rightarrow> module_state
     \<Rightarrow> (thrown + FicsitAppVersion option) \<times> module_state" where
  "getModLatestVersion I R now modID s =
     (case getModVersions R now modID s of
        (Inl e, s1) \<Rightarrow> (Inl e, s1)
      | (Inr (place, vs), s1) \<Rightarrow>
          (let sorted = array_sort (\<lambda>a b. - compare I (version a) (version b)) vs
           in (Inr (first sorted), mutateVersions place sorted s1)))"

text \<open>
  The \<open>forEach\<close> of \<open>findVersionMatchingAll\<close>, with its two variables \<open>found\<close> and
  \<open>finalVersion\<close>.
\<close>

definition findVersionMatchingAll ::
  "imported \<Rightarrow> remote \<Rightarrow> int \<Rightarrow> string \<Rightarrow> string list \<Rightarrow> module_state
     \<Rightarrow> (thrown + string option) \<times> module_state" where
  "findVersionMatchingAll I R now modID versionConstraints s =
     (case getMod R now modID s of
        (Inl e, s1) \<Rightarrow> (Inl e, s1)
      | (Inr modInfo, s1) \<Rightarrow>
          (let (found, finalVersion) =
                 fold (\<lambda>modVersion (found, finalVersion).
                         if \<not> found \<and> versionSatisfiesAll I (version modVersion) versionConstraints
                         then (True, version modVersion)
                         else (found, finalVersion))
                      (versions modInfo) (False, [])
           in (Inr (if found then Some finalVersion else None), s1)))"

subsection \<open>Queries on the loader and the bootstrapper\<close>

definition getAvailableSMLVersions ::
  "imported \<Rightarrow> remote \<Rightarrow> int \<Rightarrow> module_state
     \<Rightarrow> (thrown + FicsitAppSMLVersion list) \<times> module_state" where
  "getAvailableSMLVersions I R now s =
     (let requestID = ''getSMLVersions'' in
      if cooldownPassed s now requestID then
        (case fiscitApiQuery getSMLVersions_query None (getSMLVersions_response R) s of
           (Inl e, s1) \<Rightarrow> (Inl e, s1)
         | (Inr Undefined, s1) \<Rightarrow> (Inl TypeError, s1)
         | (Inr (Errors e), s1) \<Rightarrow> (Inl (Thrown e), s1)
         | (Inr (Result sml_versions), s1) \<Rightarrow>
             (let smlVersionsCompatible =
                    map (\<lambda>v. v\<lparr>date_SML := toDate (date_SML v)\<rparr>)
                      (filter (\<lambda>v. satisfies I (version_SML v) ''>=2.0.0'') sml_versions);
                  s2 = setCache (now + latency R) requestID (SMLVersionsData smlVersionsCompatible) s1
              in (asSMLVersions (getCache s2 requestID), s2)))
      else (asSMLVersions (getCache s requestID), s))"

definition getAvailableBootstrapperVersions ::
  "remote \<Rightarrow> int \<Rightarrow> module_state
     \<Rightarrow> (thrown + FicsitAppBootstrapperVersion list) \<times> module_state" where
  "getAvailableBootstrapperVersions R now s =
     (let requestID = ''getBootstrapperVersions'' in
      if cooldownPassed s now requestID then
        (case fiscitApiQuery getBootstrapVersions_query None (getBootstrapVersions_response R) s of
           (Inl e, s1) \<Rightarrow> (Inl e, s1)
         | (Inr Undefined, s1) \<Rightarrow> (Inl TypeError, s1)
         | (Inr (Errors e), s1) \<Rightarrow> (Inl (Thrown e), s1)
         | (Inr (Result resGetBootstrapVersions), s1) \<Rightarrow>
             (let dated = map (\<lambda>v. v\<lparr>date_Bootstrapper := toDate (date_Bootstrapper v)\<rparr>)
                            resGetBootstrapVersions;
                  s2 = setCache (now + latency R) requestID (BootstrapperVersionsData dated) s1
              in (asBootstrapperVersions (getCache s2 requestID), s2)))
      else (asBootstrapperVersions (getCache s requestID), s))"

definition getSMLVersionInfo ::
  "imported \<Rightarrow> remote \<Rightarrow> int \<Rightarrow> string \<Rightarrow> module_state
     \<Rightarrow> (thrown + FicsitAppSMLVersion option) \<times> module_state" where
  "getSMLVersionInfo I R now ver s =
     (case getAvailableSMLVersions I R now s of
        (Inl e, s1) \<Rightarrow> (Inl e, s1)
      | (Inr vs, s1) \<Rightarrow> (Inr (find (\<lambda>smlVersion. version_SML smlVersion = ver) vs), s1))"

definition getLatestSMLVersion ::
  "imported \<Rightarrow> remote \<Rightarrow> int \<Rightarrow> module_state
     \<Rightarrow> (thrown + FicsitAppSMLVersion option) \<times> module_state" where
  "getLatestSMLVersion I R now s =
     (case getAvailableSMLVersions I R now s of
        (Inl e, s1) \<Rightarrow> (Inl e, s1)
      | (Inr vs, s1) \<Rightarrow>
          (let sorted = array_sort (\<lambda>a b. - compare I (version_SML a) (version_SML b)) vs
           in (Inr (first sorted), mutateCached ''getSMLVersions'' (SMLVersionsData sorted) s1)))"

definition getBootstrapperVersionInfo ::
  "remote \<Rightarrow> int \<Rightarrow> string \<Rightarrow> module_state
     \<Rightarrow> (thrown + FicsitAppBootstrapperVersion option) \<times> module_state" where
  "getBootstrapperVersionInfo R now ver s =
     (case getAvailableBootstrapperVersions R now s of
        (Inl e, s1) \<Rightarrow> (Inl e, s1)
      | (Inr vs, s1) \<Rightarrow>
          (Inr (find (\<lambda>bootstrapperVersion. version_Bootstrapper bootstrapperVersion = ver) vs), s1))"

definition getLatestBootstrapperVersion ::
  "imported \<Rightarrow> remote \<Rightarrow> int \<Rightarrow> module_state
     \<Rightarrow> (thrown + FicsitAppBootstrapperVersion option) \<times> module_state" where
  "getLatestBootstrapperVersion I R now s =
     (case getAvailableBootstrapperVersions R now s of
        (Inl e, s1) \<Rightarrow> (Inl e, s1)
      | (Inr vs, s1) \<Rightarrow>
          (let sorted = array_sort
                 (\<lambda>a b. - compare I (version_Bootstrapper a) (version_Bootstrapper b)) vs
           in (Inr (first sorted),
               mutateCached ''getBootstrapperVersions'' (BootstrapperVersionsData sorted) s1)))"

definition findAllVersionsMatchingAll ::
  "imported \<Rightarrow> remote \<Rightarrow> int \<Rightarrow> string \<Rightarrow> string list \<Rightarrow> module_state
     \<Rightarrow> (thrown + string list) \<times> module_state" where
  "findAllVersionsMatchingAll I R now modID versionConstraints s =
     (if modID = SMLModID I then
        (case getAvailableSMLVersions I R now s of
           (Inl e, s1) \<Rightarrow> (Inl e, s1)
         | (Inr smlVersions, s1) \<Rightarrow>
             (Inr (map version_SML
                (filter (\<lambda>smlVersion. versionSatisfiesAll I (version_SML smlVersion) versionConstraints)
                  (filter (\<lambda>smlVersion. satisfies I (version_SML smlVersion) (''>='' @ minSMLVersion I))
                     smlVersions))), s1))
      else if modID = BootstrapperModID I then
        (case getAvailableBootstrapperVersions R now s of
           (Inl e, s1) \<Rightarrow> (Inl e, s1)
         | (Inr bootstrapperVersions, s1) \<Rightarrow>
             (Inr (map version_Bootstrapper
                (filter (\<lambda>bootstrapperVersion.
                           versionSatisfiesAll I (version_Bootstrapper bootstrapperVersion) versionConstraints)
                   bootstrapperVersions)), s1))
      else
        (case getMod R now modID s of
           (Inl e, s1) \<Rightarrow> (Inl e, s1)
         | (Inr modInfo, s1) \<Rightarrow>
             (Inr (map version
                (filter (\<lambda>modVersion. versionSatisfiesAll I (version modVersion) versionConstraints)
                   (versions modInfo))), s1)))"

subsection \<open>Sequences of calls\<close>

text \<open>
  The exported functions as one type of calls, the state a call leaves behind, and the
  states the module can be in: those that calls lead to from the state at load time,
  whatever the clock and the registry do in between.
\<close>

datatype call =
    SetUseTempMods bool
  | GetUseTempMods bool
  | AddTempMod ref
  | AddTempModVersion FicsitAppVersion
  | RemoveTempMod string
  | RemoveTempModVersion string string
  | FiscitApiQuery string "variables option"
  | GetModDownloadLink string string
  | GetAvailableMods
  | GetMod string
  | GetModVersions string
  | GetModLatestVersion string
  | FindVersionMatchingAll string "string list"
  | GetAvailableSMLVersions
  | GetAvailableBootstrapperVersions
  | GetSMLVersionInfo string
  | GetLatestSMLVersion
  | GetBootstrapperVersionInfo string
  | GetLatestBootstrapperVersion
  | FindAllVersionsMatchingAll string "string list"

text \<open>
  A direct call of \<open>fiscitApiQuery\<close> leaves the state that the executor leaves; this
  state does not depend on the endpoint's answer (a request is counted once the body is
  serialised), so the answer to \<open>getMods\<close> stands for the answer to any query here.
\<close>

fun perform :: "imported \<Rightarrow> remote \<Rightarrow> int \<Rightarrow> call \<Rightarrow> module_state \<Rightarrow> module_state" where
  "perform I R now (SetUseTempMods enable) s = setUseTempMods enable s"
| "perform I R now (GetUseTempMods use) s = getUseTempMods use s"
| "perform I R now (AddTempMod m) s = addTempMod m s"
| "perform I R now (AddTempModVersion v) s = addTempModVersion v s"
| "perform I R now (RemoveTempMod modID) s = removeTempMod modID s"
| "perform I R now (RemoveTempModVersion modID ver) s = removeTempModVersion modID ver s"
| "perform I R now (FiscitApiQuery query vars) s =
     snd (fiscitApiQuery query vars (getMods_response R) s)"
| "perform I R now (GetModDownloadLink modID ver) s = snd (getModDownloadLink R now modID ver s)"
| "perform I R now GetAvailableMods s = snd (getAvailableMods R now s)"
| "perform I R now (GetMod modID) s = snd (getMod R now modID s)"
| "perform I R now (GetModVersions modID) s = snd (getModVersions R now modID s)"
| "perform I R now (GetModLatestVersion modID) s = snd (getModLatestVersion I R now modID s)"
| "perform I R now (FindVersionMatchingAll modID cs) s =
     snd (findVersionMatchingAll I R now modID cs s)"
| "perform I R now GetAvailableSMLVersions s = snd (getAvailableSMLVersions I R now s)"
| "perform I R now GetAvailableBootstrapperVersions s =
     snd (getAvailableBootstrapperVersions R now s)"
| "perform I R now (GetSMLVersionInfo ver) s = snd (getSMLVersionInfo I R now ver s)"
| "perform I R now GetLatestSMLVersion s = snd (getLatestSMLVersion I R now s)"
| "perform I R now (GetBootstrapperVersionInfo ver) s =
     snd (getBootstrapperVersionInfo R now ver s)"
| "perform I R now GetLatestBootstrapperVersion s = snd (getLatestBootstrapperVersion I R now s)"
| "perform I R now (FindAllVersionsMatchingAll modID cs) s =
     snd (findAllVersionsMatchingAll I R now modID cs s)"

inductive reachable :: "imported \<Rightarrow> module_state \<Rightarrow> bool" for I :: imported where
  at_load: "reachable I (initial h)"
| after_call: "reachable I s \<Longrightarrow> reachable I (perform I R now c s)"

text \<open>A sequence of calls, each with the registry and the clock it meets.\<close>

fun run :: "imported \<Rightarrow> (remote \<times> int \<times> call) list \<Rightarrow> module_state \<Rightarrow> module_state" where
  "run I [] s = s"
| "run I ((R, now, c) # steps) s = run I steps (perform I R now c s)"

subsection \<open>Properties the claims speak of\<close>

text \<open>
  The spec's words for the result of version matching: the versions of \<open>V\<close> that satisfy
  every constraint of \<open>C\<close>, in the order of \<open>V\<close>.
\<close>

definition versions_satisfying_all :: "imported \<Rightarrow> string list \<Rightarrow> string list \<Rightarrow> string list" where
  "versions_satisfying_all I C V = filter (\<lambda>v. \<forall>c \<in> set C. satisfies I v c) V"

text \<open>
  \<open>compare\<close> is a precedence on the strings of \<open>A\<close>: swapping its arguments swaps its
  sign, and it is transitive. The semver package's \<open>compare\<close> is one on valid versions.
\<close>

definition precedence_on :: "string set \<Rightarrow> (string \<Rightarrow> string \<Rightarrow> int) \<Rightarrow> bool" where
  "precedence_on A cmp =
     ((\<forall>a\<in>A. \<forall>b\<in>A. (cmp a b < 0) = (0 < cmp b a)) \<and>
      (\<forall>a\<in>A. \<forall>b\<in>A. \<forall>c\<in>A. cmp a b \<le> 0 \<and> cmp b c \<le> 0 \<longrightarrow> cmp a c \<le> 0))"

definition descending :: "(string \<Rightarrow> string \<Rightarrow> int) \<Rightarrow> string list \<Rightarrow> bool" where
  "descending cmp vs = sorted_wrt (\<lambda>a b. 0 \<le> cmp a b) vs"

text \<open>The loader's floor, as the code tests it when it fetches.\<close>

definition supported :: "imported \<Rightarrow> string \<Rightarrow> bool" where
  "supported I v = satisfies I v ''>=2.0.0''"

text \<open>
  What an entry of the cache holds, by its request identity: each identity is written by
  one function only, the loader's entry with supported versions only.
\<close>

definition kept :: "imported \<Rightarrow> string \<Rightarrow> payload \<Rightarrow> bool" where
  "kept I requestID d =
     (if requestID = ''getSMLVersions''
        then (case d of SMLVersionsData vs \<Rightarrow> list_all (\<lambda>v. supported I (version_SML v)) vs
              | _ \<Rightarrow> False)
      else if requestID = ''getBootstrapperVersions''
        then (case d of BootstrapperVersionsData vs \<Rightarrow> True | _ \<Rightarrow> False)
      else if requestID = ''getAvailableMods''
        then (case d of ModsData ms \<Rightarrow> True | _ \<Rightarrow> False)
      else if take 7 requestID = ''getMod_''
        then (case d of ModData m \<Rightarrow> True | _ \<Rightarrow> False)
      else if take 15 requestID = ''getModVersions_''
        then (case d of VersionsData vs \<Rightarrow> True | _ \<Rightarrow> False)
      else if take 19 requestID = ''getModDownloadLink_''
        then (case d of LinkData l \<Rightarrow> True | _ \<Rightarrow> False)
      else True)"

definition cache_kept :: "imported \<Rightarrow> module_state \<Rightarrow> bool" where
  "cache_kept I s = (\<forall>requestID entry. cachedFetch s requestID = Some entry \<longrightarrow> kept I requestID (data entry))"

text \<open>The state with the entry of a request identity taken out of the cache.\<close>

definition without_entry :: "string \<Rightarrow> module_state \<Rightarrow> module_state" where
  "without_entry requestID s = s\<lparr>cachedFetch := (cachedFetch s)(requestID := None)\<rparr>"

text \<open>
  Two payloads are the same array or value up to the order of the array's elements: what
  a sort in place leaves of a cached array.
\<close>

fun same_elements :: "payload \<Rightarrow> payload \<Rightarrow> bool" where
  "same_elements (VersionsData a) (VersionsData b) = (mset a = mset b)"
| "same_elements (SMLVersionsData a) (SMLVersionsData b) = (mset a = mset b)"
| "same_elements (BootstrapperVersionsData a) (BootstrapperVersionsData b) = (mset a = mset b)"
| "same_elements (LinkData a) (LinkData b) = (a = b)"
| "same_elements (ModsData a) (ModsData b) = (a = b)"
| "same_elements (ModData a) (ModData b) = (a = b)"
| "same_elements _ _ = False"

text \<open>
  The entry under a request identity is still the one written at time \<open>t\<close> with the
  payload \<open>d\<close>, up to the order of the array's elements.
\<close>

definition still_held :: "string \<Rightarrow> int \<Rightarrow> payload \<Rightarrow> module_state \<Rightarrow> bool" where
  "still_held requestID t d s =
     (case cachedFetch s requestID of
        None \<Rightarrow> False
      | Some entry \<Rightarrow> time entry = t \<and> same_elements d (data entry))"

text \<open>Uniqueness of identifiers in the overlay.\<close>

definition unique_overlay :: "module_state \<Rightarrow> bool" where
  "unique_overlay s =
     (distinct (map id_Mod (overlay s)) \<and>
      list_all (\<lambda>m. distinct (map version (versions m))) (overlay s))"

subsection \<open>Concrete inputs\<close>

text \<open>
  A precedence and a range test for plain versions \<open>MAJOR.MINOR.PATCH\<close> and ranges
  \<open>>=MAJOR.MINOR.PATCH\<close>, to run the model on; the theorems hold for any \<open>compare\<close> and
  \<open>satisfies\<close>.
\<close>

fun numbers :: "string \<Rightarrow> nat \<Rightarrow> nat list" where
  "numbers [] n = [n]"
| "numbers (c # cs) n =
     (if c = CHR ''.'' then n # numbers cs 0 else numbers cs (10 * n + (of_char c - 48)))"

definition plain_compare :: "string \<Rightarrow> string \<Rightarrow> int" where
  "plain_compare a b =
     (if numbers a 0 = numbers b 0 then 0 else if numbers a 0 < numbers b 0 then - 1 else 1)"

definition plain_satisfies :: "string \<Rightarrow> string \<Rightarrow> bool" where
  "plain_satisfies v r =
     (if take 2 r = ''>='' then 0 \<le> plain_compare v (drop 2 r) else plain_compare v r = 0)"

definition plain :: imported where
  "plain = \<lparr>compare = plain_compare, satisfies = plain_satisfies, minSMLVersion = ''2.0.0'',
            SMLModID = ''SML'', BootstrapperModID = ''bootstrapper''\<rparr>"

definition a_version :: "string \<Rightarrow> string \<Rightarrow> FicsitAppVersion" where
  "a_version modID ver =
     \<lparr>mod_id = modID, version = ver, sml_version = ''2.0.0'', changelog = [], downloads = ''0'',
      stability = release, link = ''/v1/version/'' @ modID @ ''/'' @ ver\<rparr>"

definition a_mod :: "string \<Rightarrow> string list \<Rightarrow> FicsitAppMod" where
  "a_mod modID vers =
     \<lparr>id_Mod = modID, name = modID, short_description = [], full_description = [], logo = [],
      source_url = [], views = 0, downloads_Mod = 0, hotness = 0, popularity = 0,
      last_version_date = NullDate, authors = [], versions = map (a_version modID) vers\<rparr>"

definition an_sml_version :: "string \<Rightarrow> FicsitAppSMLVersion" where
  "an_sml_version ver =
     \<lparr>id_SML = ver, version_SML = ver, satisfactory_version_SML = 0, stability_SML = release,
      link_SML = [], changelog_SML = [], date_SML = NullDate, bootstrap_version = ''2.0.0''\<rparr>"

definition a_bootstrapper_version :: "string \<Rightarrow> FicsitAppBootstrapperVersion" where
  "a_bootstrapper_version ver =
     \<lparr>id_Bootstrapper = ver, version_Bootstrapper = ver, satisfactory_version_Bootstrapper = 0,
      stability_Bootstrapper = release, link_Bootstrapper = [], changelog_Bootstrapper = [],
      date_Bootstrapper = NullDate\<rparr>"

text \<open>
  The callers' mod objects: the one at reference 1 has the identifier \<open>modB\<close> and a
  version 1.0.0; every other one has the identifier \<open>modA\<close> and no version.
\<close>

definition callers_objects :: "ref \<Rightarrow> FicsitAppMod" where
  "callers_objects m = (if m = 1 then a_mod ''modB'' [''1.0.0''] else a_mod ''modA'' [])"

text \<open>
  An endpoint out of reach, one whose answers have no \<open>data\<close> member, a registry that
  has no mod at all, and one that has the mod \<open>modA\<close> with the versions 1.0.0 and 2.0.0
  (and also one under the loader's identifier and one under the bootstrapper's).
\<close>

definition out_of_reach :: remote where
  "out_of_reach =
     \<lparr>latency = 0,
      getModVersionLink_response = (\<lambda>modID ver. RequestRejected),
      getMods_response = RequestRejected,
      getMod_response = (\<lambda>modID. RequestRejected),
      getModVersions_response = (\<lambda>modID. RequestRejected),
      getSMLVersions_response = RequestRejected,
      getBootstrapVersions_response = RequestRejected\<rparr>"


definition no_mods :: remote where
  "no_mods =
     \<lparr>latency = 0,
      getModVersionLink_response = (\<lambda>modID ver. Data None),
      getMods_response = Data [],
      getMod_response = (\<lambda>modID. Data None),
      getModVersions_response = (\<lambda>modID. Data None),
      getSMLVersions_response = Data [],
      getBootstrapVersions_response = Data []\<rparr>"

definition some_mods :: remote where
  "some_mods =
     \<lparr>latency = 0,
      getModVersionLink_response =
        (\<lambda>modID ver. if modID = ''modA'' \<and> ver = ''1.0.0'' then Data (Some (Some ''/files/a.zip''))
                      else if modID = ''modA'' then Data (Some None) else Data None),
      getMods_response = Data [a_mod ''modA'' [''1.0.0'', ''2.0.0'']],
      getMod_response =
        (\<lambda>modID. if modID = ''modA'' \<or> modID = ''SML'' \<or> modID = ''bootstrapper''
                  then Data (Some (a_mod modID [''1.0.0'', ''2.0.0''])) else Data None),
      getModVersions_response =
        (\<lambda>modID. if modID = ''modA''
                  then Data (Some (map (a_version modID) [''1.0.0'', ''2.0.0''])) else Data None),
      getSMLVersions_response = Data (map an_sml_version [''1.2.0'', ''2.0.0'', ''2.1.0'']),
      getBootstrapVersions_response = Data (map a_bootstrapper_version [''1.0.0'', ''2.0.10''])\<rparr>"

text \<open>The state at load time with the callers' objects above.\<close>

definition loaded :: module_state where
  "loaded = initial callers_objects"

section \<open>Lemmas\<close>

subsection \<open>The cache\<close>

lemma cooldownPassed_setCache:
  "cooldownPassed (setCache t k d s) t' k = (fetchCooldown < t' - t)"
  by (simp add: cooldownPassed_def setCache_def)

lemma getCache_setCache: "getCache (setCache t k d s) k = Some d"
  by (simp add: getCache_def setCache_def)

lemma cooldownPassed_without_entry: "cooldownPassed (without_entry k s) now k"
  by (simp add: cooldownPassed_def without_entry_def)

lemma without_entry_fields:
  "tempMods (without_entry k s) = tempMods s"
  "useTempMods (without_entry k s) = useTempMods s"
  "requests (without_entry k s) = requests s"
  "objects (without_entry k s) = objects s"
  by (simp_all add: without_entry_def)

lemma setCache_fields:
  "tempMods (setCache t k d s) = tempMods s"
  "useTempMods (setCache t k d s) = useTempMods s"
  "requests (setCache t k d s) = requests s"
  "objects (setCache t k d s) = objects s"
  by (simp_all add: setCache_def)

text \<open>
  When the body can be made, \<open>fiscitApiQuery\<close> sends one request and returns the network
  error or the \<open>data\<close> member of the parsed body.
\<close>

lemma fiscitApiQuery_sent:
  assumes "JSON_stringify query vars = Inr ()"
  shows "fiscitApiQuery query vars response s =
     (Inr (case response of
             RequestRejected \<Rightarrow> Errors (Error ''Network error. Please try again later.'')
           | Body b \<Rightarrow>
               (case b of
                  NotJson \<Rightarrow> Errors (Error ''Network error. Please try again later.'')
                | Json j \<Rightarrow>
                    (case j of
                       JsonNull \<Rightarrow> Errors (Error ''Network error. Please try again later.'')
                     | JsonValue d \<Rightarrow> d))),
      s\<lparr>requests := Suc (requests s)\<rparr>)"
proof (cases response)
  case RequestRejected
  with assms show ?thesis by (simp add: fiscitApiQuery_def try_block_def)
next
  case (Body b)
  show ?thesis
  proof (cases b)
    case NotJson
    with Body assms show ?thesis by (simp add: fiscitApiQuery_def try_block_def)
  next
    case (Json j)
    with Body assms show ?thesis by (cases j) (simp_all add: fiscitApiQuery_def try_block_def)
  qed
qed

lemma fiscitApiQuery_not_sent:
  assumes "JSON_stringify query vars = Inl e"
  shows "fiscitApiQuery query vars response s =
     (Inr (Errors (Error ''Network error. Please try again later.'')), s)"
  using assms by (simp add: fiscitApiQuery_def try_block_def)

lemma JSON_stringify_strings:
  "JSON_stringify query None = Inr ()"
  "JSON_stringify query (Some [(k, JsString a)]) = Inr ()"
  "JSON_stringify query (Some [(k, JsString a), (k', JsString b)]) = Inr ()"
  by (simp_all add: JSON_stringify_def)

lemmas query_simps = fiscitApiQuery_sent JSON_stringify_strings Let_def

lemmas response_splits = api_response.splits body.splits json.splits query_result.splits

lemmas miss_simps = cooldownPassed_without_entry without_entry_fields setCache_fields
  getCache_setCache query_simps

text \<open>
  A call that finds the cooldown passed sends one request, and returns or throws what it
  would with no entry under its request identity.
\<close>

lemma getModDownloadLink_miss:
  assumes "cooldownPassed s now (''getModDownloadLink_'' @ modID @ ''_'' @ ver)"
  shows "requests (snd (getModDownloadLink R now modID ver s)) = Suc (requests s)
       \<and> fst (getModDownloadLink R now modID ver s) =
           fst (getModDownloadLink R now modID ver
                  (without_entry (''getModDownloadLink_'' @ modID @ ''_'' @ ver) s))"
  using assms
  by (simp add: getModDownloadLink_def miss_simps split: response_splits option.splits)

lemma getAvailableMods_miss:
  assumes "cooldownPassed s now ''getAvailableMods''"
  shows "requests (snd (getAvailableMods R now s)) = Suc (requests s)
       \<and> fst (getAvailableMods R now s) =
           fst (getAvailableMods R now (without_entry ''getAvailableMods'' s))"
  using assms
  by (simp add: getAvailableMods_def miss_simps split: response_splits option.splits)

lemma getMod_miss:
  assumes "cooldownPassed s now (''getMod_'' @ modID)"
  shows "requests (snd (getMod R now modID s)) = Suc (requests s)
       \<and> fst (getMod R now modID s) =
           fst (getMod R now modID (without_entry (''getMod_'' @ modID) s))"
  using assms
  by (simp add: getMod_def miss_simps split: response_splits option.splits)

lemma getModVersions_miss:
  assumes "cooldownPassed s now (''getModVersions_'' @ modID)"
  shows "requests (snd (getModVersions R now modID s)) = Suc (requests s)
       \<and> fst (getModVersions R now modID s) =
           fst (getModVersions R now modID (without_entry (''getModVersions_'' @ modID) s))"
  using assms
  by (simp add: getModVersions_def miss_simps split: response_splits option.splits)

lemma getAvailableSMLVersions_miss:
  assumes "cooldownPassed s now ''getSMLVersions''"
  shows "requests (snd (getAvailableSMLVersions I R now s)) = Suc (requests s)
       \<and> fst (getAvailableSMLVersions I R now s) =
           fst (getAvailableSMLVersions I R now (without_entry ''getSMLVersions'' s))"
  using assms
  by (simp add: getAvailableSMLVersions_def miss_simps split: response_splits option.splits)

lemma getAvailableBootstrapperVersions_miss:
  assumes "cooldownPassed s now ''getBootstrapperVersions''"
  shows "requests (snd (getAvailableBootstrapperVersions R now s)) = Suc (requests s)
       \<and> fst (getAvailableBootstrapperVersions R now s) =
           fst (getAvailableBootstrapperVersions R now (without_entry ''getBootstrapperVersions'' s))"
  using assms
  by (simp add: getAvailableBootstrapperVersions_def miss_simps
        split: response_splits option.splits)

subsection \<open>Version matching\<close>

lemma forEach_first_match:
  "fold (\<lambda>modVersion (found, finalVersion).
           if \<not> found \<and> P modVersion then (True, version modVersion)
           else (found, finalVersion)) vs (found, fv) =
   (if found then (found, fv)
    else (case find P vs of Some v \<Rightarrow> (True, version v) | None \<Rightarrow> (False, fv)))"
  by (induction vs arbitrary: found fv) auto

lemma first_filter: "first (filter P xs) = find P xs"
  by (induction xs) auto

lemma first_None: "first xs = None \<longleftrightarrow> xs = []"
  by (cases xs) auto

lemma find_map: "find P (map f xs) = map_option f (find (\<lambda>x. P (f x)) xs)"
  by (induction xs) auto

lemma versions_satisfying_all_map:
  "versions_satisfying_all I C (map version vs) =
   map version (filter (\<lambda>v. versionSatisfiesAll I (version v) C) vs)"
  by (simp add: versions_satisfying_all_def versionSatisfiesAll_def list_all_iff filter_map comp_def)

lemma first_versions_satisfying_all:
  "first (versions_satisfying_all I C (map version vs)) =
   map_option version (find (\<lambda>v. versionSatisfiesAll I (version v) C) vs)"
  by (simp add: versions_satisfying_all_def versionSatisfiesAll_def list_all_iff first_filter find_map)

lemma findAllVersionsMatchingAll_of_mod:
  assumes "modID \<noteq> SMLModID I" "modID \<noteq> BootstrapperModID I"
    and "getMod R now modID s = (Inr m, s')"
  shows "findAllVersionsMatchingAll I R now modID C s =
           (Inr (versions_satisfying_all I C (map version (versions m))), s')"
  using assms by (simp add: findAllVersionsMatchingAll_def versions_satisfying_all_map)

lemma findVersionMatchingAll_of_mod:
  assumes "getMod R now modID s = (Inr m, s')"
  shows "findVersionMatchingAll I R now modID C s =
           (Inr (first (versions_satisfying_all I C (map version (versions m)))), s')"
  using assms
  by (simp add: findVersionMatchingAll_def forEach_first_match first_versions_satisfying_all
           split: option.splits)

lemma getMod_some_mods:
  "getMod some_mods 0 ''modA'' loaded =
     (Inr (a_mod ''modA'' [''1.0.0'', ''2.0.0'']),
      setCache 0 ''getMod_modA'' (ModData (a_mod ''modA'' [''1.0.0'', ''2.0.0'']))
        (loaded\<lparr>requests := 1\<rparr>))"
  by (simp add: getMod_def some_mods_def loaded_def initial_def cooldownPassed_def query_simps
        getCache_def setCache_def a_mod_def)

subsection \<open>Sorting\<close>

lemma set_insert_sorted: "set (insert_sorted c x ys) = insert x (set ys)"
  by (induction ys) auto

lemma mset_insert_sorted: "mset (insert_sorted c x ys) = add_mset x (mset ys)"
  by (induction ys) auto

lemma array_sort_Cons: "array_sort c (x # xs) = insert_sorted c x (array_sort c xs)"
  by (simp add: array_sort_def)

lemma array_sort_Nil: "array_sort c [] = []"
  by (simp add: array_sort_def)

lemma mset_array_sort: "mset (array_sort c xs) = mset xs"
  by (induction xs) (simp_all add: array_sort_Nil array_sort_Cons mset_insert_sorted)

lemma set_array_sort: "set (array_sort c xs) = set xs"
  by (induction xs) (simp_all add: array_sort_Nil array_sort_Cons set_insert_sorted)

lemma precedence_on_swap:
  "precedence_on A cmp \<Longrightarrow> a \<in> A \<Longrightarrow> b \<in> A \<Longrightarrow> (cmp a b < 0) = (0 < cmp b a)"
  unfolding precedence_on_def by simp

lemma precedence_on_trans:
  "precedence_on A cmp \<Longrightarrow> a \<in> A \<Longrightarrow> b \<in> A \<Longrightarrow> c \<in> A \<Longrightarrow>
     cmp a b \<le> 0 \<Longrightarrow> cmp b c \<le> 0 \<Longrightarrow> cmp a c \<le> 0"
  unfolding precedence_on_def by blast

lemma precedence_on_subset:
  assumes "precedence_on A cmp" and "B \<subseteq> A"
  shows "precedence_on B cmp"
  unfolding precedence_on_def
proof (intro conjI ballI impI)
  fix a b
  assume "a \<in> B" "b \<in> B"
  then show "(cmp a b < 0) = (0 < cmp b a)"
    using precedence_on_swap [OF assms(1), of a b] assms(2) by auto
next
  fix a b c
  assume "a \<in> B" "b \<in> B" "c \<in> B" "cmp a b \<le> 0 \<and> cmp b c \<le> 0"
  then show "cmp a c \<le> 0"
    using precedence_on_trans [OF assms(1), of a b c] assms(2) by auto
qed

lemma precedence_on_ge_trans:
  assumes "precedence_on A cmp" "a \<in> A" "b \<in> A" "c \<in> A"
    and "0 \<le> cmp a b" "0 \<le> cmp b c"
  shows "0 \<le> cmp a c"
proof -
  have "cmp b a \<le> 0" using precedence_on_swap [OF assms(1,2,3)] assms(5) by arith
  moreover have "cmp c b \<le> 0" using precedence_on_swap [OF assms(1,3,4)] assms(6) by arith
  ultimately have "cmp c a \<le> 0" using precedence_on_trans [OF assms(1,4,3,2)] by simp
  then show ?thesis using precedence_on_swap [OF assms(1,2,4)] by arith
qed

lemma sorted_insert_sorted:
  assumes "precedence_on (key ` (insert x (set ys))) cmp"
    and "sorted_wrt (\<lambda>a b. 0 \<le> cmp (key a) (key b)) ys"
  shows "sorted_wrt (\<lambda>a b. 0 \<le> cmp (key a) (key b)) (insert_sorted (\<lambda>a b. - cmp (key a) (key b)) x ys)"
  using assms
proof (induction ys)
  case Nil
  then show ?case by simp
next
  case (Cons y ys)
  let ?A = "key ` insert x (set (y # ys))"
  have A: "precedence_on ?A cmp" by (rule Cons.prems(1))
  have x: "key x \<in> ?A" and y: "key y \<in> ?A" by simp_all
  have tail: "\<forall>z\<in>set ys. 0 \<le> cmp (key y) (key z)" using Cons.prems(2) by simp
  have S: "sorted_wrt (\<lambda>a b. 0 \<le> cmp (key a) (key b)) ys" using Cons.prems(2) by simp
  show ?case
  proof (cases "0 \<le> cmp (key x) (key y)")
    case True
    have "\<forall>z\<in>set ys. 0 \<le> cmp (key x) (key z)"
    proof
      fix z assume z: "z \<in> set ys"
      then have kz: "key z \<in> ?A" by simp
      from z tail have "0 \<le> cmp (key y) (key z)" by simp
      with True show "0 \<le> cmp (key x) (key z)"
        by (rule precedence_on_ge_trans [OF A x y kz])
    qed
    with True Cons.prems(2) show ?thesis by simp
  next
    case False
    then have yx: "0 \<le> cmp (key y) (key x)" using precedence_on_swap [OF A x y] by arith
    have "precedence_on (key ` insert x (set ys)) cmp"
      by (rule precedence_on_subset [OF A]) auto
    from Cons.IH [OF this S] False yx tail show ?thesis by (simp add: set_insert_sorted)
  qed
qed

lemma sorted_array_sort:
  assumes "precedence_on (key ` set xs) cmp"
  shows "sorted_wrt (\<lambda>a b. 0 \<le> cmp (key a) (key b)) (array_sort (\<lambda>a b. - cmp (key a) (key b)) xs)"
  using assms
proof (induction xs)
  case Nil
  then show ?case by (simp add: array_sort_Nil)
next
  case (Cons x xs)
  have P: "precedence_on (key ` set xs) cmp"
    by (rule precedence_on_subset [OF Cons.prems]) auto
  have "precedence_on (key ` insert x (set (array_sort (\<lambda>a b. - cmp (key a) (key b)) xs))) cmp"
    using Cons.prems by (simp add: set_array_sort)
  from sorted_insert_sorted [OF this Cons.IH [OF P]]
  show ?case by (simp add: array_sort_Cons)
qed

lemma descending_array_sort:
  assumes "precedence_on (key ` set xs) cmp"
  shows "descending cmp (map key (array_sort (\<lambda>a b. - cmp (key a) (key b)) xs))"
  using sorted_array_sort [OF assms] by (simp add: descending_def sorted_wrt_map)

lemma precedence_on_refl:
  assumes "precedence_on A cmp" "a \<in> A" shows "cmp a a = 0"
  using precedence_on_swap [OF assms(1,2,2)] by arith

lemma first_array_sort_highest:
  assumes "precedence_on (key ` set xs) cmp" and "xs \<noteq> []"
  shows "\<exists>r. first (array_sort (\<lambda>a b. - cmp (key a) (key b)) xs) = Some r \<and> r \<in> set xs
            \<and> (\<forall>v\<in>set xs. cmp (key v) (key r) \<le> 0)"
proof -
  let ?ys = "array_sort (\<lambda>a b. - cmp (key a) (key b)) xs"
  have "set ?ys = set xs" by (rule set_array_sort)
  with assms(2) have "?ys \<noteq> []" by auto
  then obtain r rs where ys: "?ys = r # rs" by (cases ?ys) auto
  have set: "set xs = insert r (set rs)"
    using set_array_sort [of "\<lambda>a b. - cmp (key a) (key b)" xs] ys by simp
  then have r: "key r \<in> key ` set xs" by simp
  have srt: "\<forall>z\<in>set rs. 0 \<le> cmp (key r) (key z)"
    using sorted_array_sort [OF assms(1)] ys by simp
  have "\<forall>v\<in>set xs. cmp (key v) (key r) \<le> 0"
  proof
    fix v assume v: "v \<in> set xs"
    then have kv: "key v \<in> key ` set xs" by simp
    show "cmp (key v) (key r) \<le> 0"
    proof (cases "v = r")
      case True
      then show ?thesis using precedence_on_refl [OF assms(1) r] by simp
    next
      case False
      then have "v \<in> set rs" using v set by auto
      then have "0 \<le> cmp (key r) (key v)" using srt by simp
      then show ?thesis using precedence_on_swap [OF assms(1) r kv] by arith
    qed
  qed
  with ys set show ?thesis by simp
qed

subsection \<open>The overlay\<close>

lemma find_holds: "find P xs = Some x \<Longrightarrow> P x \<and> x \<in> set xs"
  by (induction xs) (auto split: if_splits)

lemma getMod_overlay:
  assumes "cooldownPassed s now (''getMod_'' @ modID)" "getMod_response R modID = Data None"
    "useTempMods s" "find (\<lambda>m. id_Mod (objects s m) = modID) (tempMods s) = Some tempMod"
  shows "fst (getMod R now modID s) = Inr (objects s tempMod)"
  using assms by (simp add: getMod_def query_simps)

lemma getMod_not_found:
  assumes "cooldownPassed s now (''getMod_'' @ modID)" "getMod_response R modID = Data None"
    "\<not> (useTempMods s \<and> (\<exists>m \<in> set (overlay s). id_Mod m = modID))"
  shows "fst (getMod R now modID s) = Inl (ModNotFoundError (''Mod '' @ modID @ '' not found''))"
proof (cases "useTempMods s")
  case True
  with assms(3) have "find (\<lambda>m. id_Mod (objects s m) = modID) (tempMods s) = None"
    by (auto simp: find_None_iff overlay_def)
  with assms(1,2) show ?thesis by (simp add: getMod_def query_simps)
next
  case False
  with assms(1,2) show ?thesis by (simp add: getMod_def query_simps)
qed

lemma getMod_found:
  assumes "cooldownPassed s now (''getMod_'' @ modID)" "getMod_response R modID = Data (Some m)"
  shows "fst (getMod R now modID s) = Inr (m\<lparr>last_version_date := toDate (last_version_date m)\<rparr>)"
  using assms by (simp add: getMod_def query_simps getCache_setCache)

lemma overlay_mutations_refused:
  assumes "\<not> useTempMods s"
  shows "addTempMod m s = s" "addTempModVersion v s = s" "removeTempMod modID s = s"
    "removeTempModVersion modID ver s = s"
  using assms
  by (simp_all add: addTempMod_def addTempModVersion_def removeTempMod_def removeTempModVersion_def)

lemma unique_overlay_addTempMod:
  assumes "unique_overlay s" and "id_Mod (objects s m) \<notin> id_Mod ` set (overlay s)"
    and "distinct (map version (versions (objects s m)))"
  shows "unique_overlay (addTempMod m s)"
  using assms by (auto simp: unique_overlay_def addTempMod_def overlay_def)

lemma unique_overlay_addTempModVersion:
  assumes "unique_overlay s"
    and "\<forall>tm \<in> set (overlay s). id_Mod tm = mod_id v \<longrightarrow> version v \<notin> version ` set (versions tm)"
  shows "unique_overlay (addTempModVersion v s)"
proof (cases "useTempMods s")
  case False
  with assms(1) show ?thesis by (simp add: addTempModVersion_def)
next
  case True
  show ?thesis
  proof (cases "find (\<lambda>m. id_Mod (objects s m) = mod_id v) (tempMods s)")
    case None
    with True assms(1) show ?thesis by (simp add: addTempModVersion_def)
  next
    case (Some a)
    let ?h = "(objects s)(a := (objects s a)\<lparr>versions := versions (objects s a) @ [v]\<rparr>)"
    from find_holds [OF Some] have a: "id_Mod (objects s a) = mod_id v" "a \<in> set (tempMods s)"
      by simp_all
    have ids: "map (\<lambda>m. id_Mod (?h m)) (tempMods s) = map (\<lambda>m. id_Mod (objects s m)) (tempMods s)"
      by (rule map_cong) simp_all
    have "version v \<notin> version ` set (versions (objects s a))"
      using assms(2) a by (auto simp: overlay_def)
    then have "distinct (map version (versions (?h a)))"
      using assms(1) a(2) by (auto simp: unique_overlay_def overlay_def list_all_iff)
    then have all: "\<forall>m \<in> set (tempMods s). distinct (map version (versions (?h m)))"
      using assms(1) by (auto simp: unique_overlay_def overlay_def list_all_iff)
    have new: "addTempModVersion v s = s\<lparr>objects := ?h\<rparr>"
      using True Some by (simp add: addTempModVersion_def)
    have ov: "overlay (s\<lparr>objects := ?h\<rparr>) = map ?h (tempMods s)"
      by (simp add: overlay_def)
    have "map id_Mod (map ?h (tempMods s)) = map id_Mod (overlay s)"
      unfolding overlay_def map_map comp_def by (rule ids)
    then have d1: "distinct (map id_Mod (map ?h (tempMods s)))"
      using assms(1) by (simp only: unique_overlay_def)
    have d2: "list_all (\<lambda>m. distinct (map version (versions m))) (map ?h (tempMods s))"
      unfolding list_all_iff using all by force
    show ?thesis
      unfolding new unique_overlay_def ov using d1 d2 by (rule conjI)
  qed
qed

subsection \<open>Arrays sorted in place\<close>

lemma precedence_on_plain_compare: "precedence_on A plain_compare"
  unfolding precedence_on_def plain_compare_def by (auto split: if_splits)

lemma getModLatestVersion_of_versions:
  assumes "getModVersions R now modID s = (Inr (place, vs), s1)"
  shows "getModLatestVersion I R now modID s =
           (Inr (first (array_sort (\<lambda>a b. - compare I (version a) (version b)) vs)),
            mutateVersions place (array_sort (\<lambda>a b. - compare I (version a) (version b)) vs) s1)"
  using assms by (simp add: getModLatestVersion_def Let_def)

lemma getModVersions_some_mods:
  "getModVersions some_mods 0 ''modA'' loaded =
     (Inr (CachedArray ''getModVersions_modA'', map (a_version ''modA'') [''1.0.0'', ''2.0.0'']),
      setCache 0 ''getModVersions_modA'' (VersionsData (map (a_version ''modA'') [''1.0.0'', ''2.0.0'']))
        (loaded\<lparr>requests := 1\<rparr>))"
  by (simp add: getModVersions_def some_mods_def loaded_def initial_def cooldownPassed_def query_simps
        getCache_def setCache_def Let_def)

lemma getModVersions_cached:
  assumes "getModVersions R now modID s = (Inr (CachedArray k, vs), s1)"
  shows "k = ''getModVersions_'' @ modID \<and> getCache s1 k = Some (VersionsData vs)"
proof (cases "cooldownPassed s now (''getModVersions_'' @ modID)")
  case False
  with assms have "asVersions (getCache s (''getModVersions_'' @ modID)) = Inr vs"
    and "s1 = s" and "k = ''getModVersions_'' @ modID"
    by (auto simp: getModVersions_def Let_def map_sum_def split: sum.splits)
  moreover from this(1) have "getCache s (''getModVersions_'' @ modID) = Some (VersionsData vs)"
    by (cases "getCache s (''getModVersions_'' @ modID)" rule: asVersions.cases) auto
  ultimately show ?thesis by simp
next
  case True
  with assms show ?thesis
    by (auto simp: getModVersions_def query_simps Let_def getCache_setCache
          split: response_splits option.splits if_splits)
qed

lemma getAvailableSMLVersions_cached:
  assumes "getAvailableSMLVersions I R now s = (Inr vs, s1)"
  shows "getCache s1 ''getSMLVersions'' = Some (SMLVersionsData vs)"
proof (cases "cooldownPassed s now ''getSMLVersions''")
  case False
  with assms have "asSMLVersions (getCache s ''getSMLVersions'') = Inr vs" and "s1 = s"
    by (auto simp: getAvailableSMLVersions_def Let_def)
  moreover from this(1) have "getCache s ''getSMLVersions'' = Some (SMLVersionsData vs)"
    by (cases "getCache s ''getSMLVersions''" rule: asSMLVersions.cases) auto
  ultimately show ?thesis by simp
next
  case True
  with assms show ?thesis
    by (auto simp: getAvailableSMLVersions_def query_simps Let_def getCache_setCache
          split: response_splits)
qed

lemma getAvailableBootstrapperVersions_cached:
  assumes "getAvailableBootstrapperVersions R now s = (Inr vs, s1)"
  shows "getCache s1 ''getBootstrapperVersions'' = Some (BootstrapperVersionsData vs)"
proof (cases "cooldownPassed s now ''getBootstrapperVersions''")
  case False
  with assms have "asBootstrapperVersions (getCache s ''getBootstrapperVersions'') = Inr vs" and "s1 = s"
    by (auto simp: getAvailableBootstrapperVersions_def Let_def)
  moreover from this(1) have "getCache s ''getBootstrapperVersions'' = Some (BootstrapperVersionsData vs)"
    by (cases "getCache s ''getBootstrapperVersions''" rule: asBootstrapperVersions.cases) auto
  ultimately show ?thesis by simp
next
  case True
  with assms show ?thesis
    by (auto simp: getAvailableBootstrapperVersions_def query_simps Let_def getCache_setCache
          split: response_splits)
qed

lemma getCache_mutateCached:
  assumes "getCache s k = Some d"
  shows "getCache (mutateCached k d' s) k = Some d'"
    and "map_option time (cachedFetch (mutateCached k d' s) k) = map_option time (cachedFetch s k)"
    and "cooldownPassed (mutateCached k d' s) now k = cooldownPassed s now k"
  using assms by (auto simp: getCache_def mutateCached_def cooldownPassed_def split: option.splits)

lemma sorted_versions_in_cache:
  assumes "getModVersions R now modID s = (Inr (CachedArray k, vs), s1)"
  shows "let sorted = array_sort (\<lambda>a b. - compare I (version a) (version b)) vs;
             s2 = snd (getModLatestVersion I R now modID s)
         in getCache s2 k = Some (VersionsData sorted)
          \<and> map_option time (cachedFetch s2 k) = map_option time (cachedFetch s1 k)
          \<and> mset sorted = mset vs
          \<and> (precedence_on (version ` set vs) (compare I) \<longrightarrow>
                descending (compare I) (map version sorted))
          \<and> (\<not> cooldownPassed s2 now' k \<longrightarrow>
                fst (getModVersions R' now' modID s2) = Inr (CachedArray k, sorted))"
proof -
  let ?sorted = "array_sort (\<lambda>a b. - compare I (version a) (version b)) vs"
  let ?s2 = "mutateCached k (VersionsData ?sorted) s1"
  from getModVersions_cached [OF assms]
  have k: "k = ''getModVersions_'' @ modID" and c: "getCache s1 k = Some (VersionsData vs)"
    by blast+
  have s2: "snd (getModLatestVersion I R now modID s) = ?s2"
    by (simp add: getModLatestVersion_of_versions [OF assms])
  have held: "getCache ?s2 k = Some (VersionsData ?sorted)"
    by (rule getCache_mutateCached(1) [OF c])
  have "\<not> cooldownPassed ?s2 now' k \<longrightarrow>
          fst (getModVersions R' now' modID ?s2) = Inr (CachedArray k, ?sorted)"
    using held by (simp add: getModVersions_def k Let_def)
  then show ?thesis
    unfolding Let_def s2
    using held getCache_mutateCached(2) [OF c] descending_array_sort [of version vs "compare I"]
    by (simp add: mset_array_sort)
qed

lemma sorted_sml_versions_in_cache:
  assumes "getAvailableSMLVersions I R now s = (Inr vs, s1)"
  shows "let sorted = array_sort (\<lambda>a b. - compare I (version_SML a) (version_SML b)) vs;
             s2 = snd (getLatestSMLVersion I R now s)
         in getCache s2 ''getSMLVersions'' = Some (SMLVersionsData sorted)
          \<and> map_option time (cachedFetch s2 ''getSMLVersions'') =
              map_option time (cachedFetch s1 ''getSMLVersions'')
          \<and> mset sorted = mset vs
          \<and> (precedence_on (version_SML ` set vs) (compare I) \<longrightarrow>
                descending (compare I) (map version_SML sorted))
          \<and> (\<not> cooldownPassed s2 now' ''getSMLVersions'' \<longrightarrow>
                fst (getAvailableSMLVersions I R' now' s2) = Inr sorted)"
proof -
  let ?sorted = "array_sort (\<lambda>a b. - compare I (version_SML a) (version_SML b)) vs"
  let ?s2 = "mutateCached ''getSMLVersions'' (SMLVersionsData ?sorted) s1"
  note c = getAvailableSMLVersions_cached [OF assms]
  have s2: "snd (getLatestSMLVersion I R now s) = ?s2"
    using assms by (simp add: getLatestSMLVersion_def Let_def)
  have held: "getCache ?s2 ''getSMLVersions'' = Some (SMLVersionsData ?sorted)"
    by (rule getCache_mutateCached(1) [OF c])
  have "\<not> cooldownPassed ?s2 now' ''getSMLVersions'' \<longrightarrow>
          fst (getAvailableSMLVersions I R' now' ?s2) = Inr ?sorted"
    using held by (simp add: getAvailableSMLVersions_def Let_def)
  then show ?thesis
    unfolding Let_def s2
    using held getCache_mutateCached(2) [OF c] descending_array_sort [of version_SML vs "compare I"]
    by (simp add: mset_array_sort)
qed

lemma sorted_bootstrapper_versions_in_cache:
  assumes "getAvailableBootstrapperVersions R now s = (Inr vs, s1)"
  shows "let sorted = array_sort (\<lambda>a b. - compare I (version_Bootstrapper a) (version_Bootstrapper b)) vs;
             s2 = snd (getLatestBootstrapperVersion I R now s)
         in getCache s2 ''getBootstrapperVersions'' = Some (BootstrapperVersionsData sorted)
          \<and> map_option time (cachedFetch s2 ''getBootstrapperVersions'') =
              map_option time (cachedFetch s1 ''getBootstrapperVersions'')
          \<and> mset sorted = mset vs
          \<and> (precedence_on (version_Bootstrapper ` set vs) (compare I) \<longrightarrow>
                descending (compare I) (map version_Bootstrapper sorted))
          \<and> (\<not> cooldownPassed s2 now' ''getBootstrapperVersions'' \<longrightarrow>
                fst (getAvailableBootstrapperVersions R' now' s2) = Inr sorted)"
proof -
  let ?sorted = "array_sort (\<lambda>a b. - compare I (version_Bootstrapper a) (version_Bootstrapper b)) vs"
  let ?s2 = "mutateCached ''getBootstrapperVersions'' (BootstrapperVersionsData ?sorted) s1"
  note c = getAvailableBootstrapperVersions_cached [OF assms]
  have s2: "snd (getLatestBootstrapperVersion I R now s) = ?s2"
    using assms by (simp add: getLatestBootstrapperVersion_def Let_def)
  have held: "getCache ?s2 ''getBootstrapperVersions'' = Some (BootstrapperVersionsData ?sorted)"
    by (rule getCache_mutateCached(1) [OF c])
  have "\<not> cooldownPassed ?s2 now' ''getBootstrapperVersions'' \<longrightarrow>
          fst (getAvailableBootstrapperVersions R' now' ?s2) = Inr ?sorted"
    using held by (simp add: getAvailableBootstrapperVersions_def Let_def)
  then show ?thesis
    unfolding Let_def s2
    using held getCache_mutateCached(2) [OF c]
      descending_array_sort [of version_Bootstrapper vs "compare I"]
    by (simp add: mset_array_sort)
qed

lemma array_sort_two:
  "array_sort (\<lambda>a b. - compare plain (version a) (version b))
     (map (a_version ''modA'') [''1.0.0'', ''2.0.0'']) = map (a_version ''modA'') [''2.0.0'', ''1.0.0'']"
  by (simp add: array_sort_def a_version_def plain_def plain_compare_def)

subsection \<open>What the cache holds in every reachable state\<close>

lemma cache_kept_setCache:
  assumes "cache_kept I s" and "kept I k d"
  shows "cache_kept I (setCache t k d s)"
  using assms by (simp add: cache_kept_def setCache_def)

lemma cache_kept_mutateCached:
  assumes "cache_kept I s" and "kept I k d"
  shows "cache_kept I (mutateCached k d s)"
  using assms by (simp add: cache_kept_def mutateCached_def split: option.splits)

lemma cache_kept_other_fields:
  "cache_kept I (s\<lparr>requests := n\<rparr>) = cache_kept I s"
  "cache_kept I (s\<lparr>tempMods := ms\<rparr>) = cache_kept I s"
  "cache_kept I (s\<lparr>useTempMods := b\<rparr>) = cache_kept I s"
  "cache_kept I (s\<lparr>objects := h\<rparr>) = cache_kept I s"
  by (simp_all add: cache_kept_def)

lemma cache_kept_SML:
  assumes "cache_kept I s" and "getCache s ''getSMLVersions'' = Some d"
  shows "\<exists>vs. d = SMLVersionsData vs \<and> list_all (\<lambda>v. supported I (version_SML v)) vs"
proof -
  from assms(2) obtain entry where "cachedFetch s ''getSMLVersions'' = Some entry" "data entry = d"
    by (auto simp: getCache_def)
  with assms(1) have "kept I ''getSMLVersions'' d" by (auto simp: cache_kept_def)
  then show ?thesis by (cases d) (simp_all add: kept_def)
qed

lemma kept_kinds:
  assumes "cache_kept I s"
  shows "getCache s (''getModDownloadLink_'' @ modID @ ''_'' @ ver) = Some d \<Longrightarrow> \<exists>l. d = LinkData l"
    and "getCache s ''getAvailableMods'' = Some d \<Longrightarrow> \<exists>ms. d = ModsData ms"
    and "getCache s (''getMod_'' @ modID) = Some d \<Longrightarrow> \<exists>m. d = ModData m"
    and "getCache s (''getModVersions_'' @ modID) = Some d \<Longrightarrow> \<exists>vs. d = VersionsData vs"
    and "getCache s ''getSMLVersions'' = Some d \<Longrightarrow> \<exists>vs. d = SMLVersionsData vs"
    and "getCache s ''getBootstrapperVersions'' = Some d \<Longrightarrow> \<exists>vs. d = BootstrapperVersionsData vs"
proof -
  have k: "kept I k d" if "getCache s k = Some d" for k
    using assms that by (auto simp: cache_kept_def getCache_def)
  show "getCache s (''getModDownloadLink_'' @ modID @ ''_'' @ ver) = Some d \<Longrightarrow> \<exists>l. d = LinkData l"
    using k [of "''getModDownloadLink_'' @ modID @ ''_'' @ ver"]
    by (cases d) (simp_all add: kept_def)
  show "getCache s ''getAvailableMods'' = Some d \<Longrightarrow> \<exists>ms. d = ModsData ms"
    using k [of "''getAvailableMods''"] by (cases d) (simp_all add: kept_def)
  show "getCache s (''getMod_'' @ modID) = Some d \<Longrightarrow> \<exists>m. d = ModData m"
    using k [of "''getMod_'' @ modID"] by (cases d) (simp_all add: kept_def)
  show "getCache s (''getModVersions_'' @ modID) = Some d \<Longrightarrow> \<exists>vs. d = VersionsData vs"
    using k [of "''getModVersions_'' @ modID"] by (cases d) (simp_all add: kept_def)
  show "getCache s ''getSMLVersions'' = Some d \<Longrightarrow> \<exists>vs. d = SMLVersionsData vs"
    using k [of "''getSMLVersions''"] by (cases d) (simp_all add: kept_def)
  show "getCache s ''getBootstrapperVersions'' = Some d \<Longrightarrow> \<exists>vs. d = BootstrapperVersionsData vs"
    using k [of "''getBootstrapperVersions''"] by (cases d) (simp_all add: kept_def)
qed

lemmas kept_steps = cache_kept_setCache cache_kept_other_fields kept_def
  query_simps Let_def

lemma cache_kept_getModDownloadLink:
  "cache_kept I s \<Longrightarrow> cache_kept I (snd (getModDownloadLink R now modID ver s))"
  by (simp add: getModDownloadLink_def kept_steps split: response_splits option.splits)

lemma cache_kept_getAvailableMods:
  "cache_kept I s \<Longrightarrow> cache_kept I (snd (getAvailableMods R now s))"
  by (simp add: getAvailableMods_def kept_steps split: response_splits)

lemma cache_kept_getMod:
  "cache_kept I s \<Longrightarrow> cache_kept I (snd (getMod R now modID s))"
  by (simp add: getMod_def kept_steps split: response_splits option.splits)

lemma cache_kept_getModVersions:
  "cache_kept I s \<Longrightarrow> cache_kept I (snd (getModVersions R now modID s))"
  by (simp add: getModVersions_def kept_steps split: response_splits option.splits)

lemma cache_kept_getAvailableSMLVersions:
  "cache_kept I s \<Longrightarrow> cache_kept I (snd (getAvailableSMLVersions I R now s))"
  by (simp add: getAvailableSMLVersions_def kept_steps supported_def list_all_iff
        split: response_splits)

lemma cache_kept_getAvailableBootstrapperVersions:
  "cache_kept I s \<Longrightarrow> cache_kept I (snd (getAvailableBootstrapperVersions R now s))"
  by (simp add: getAvailableBootstrapperVersions_def kept_steps split: response_splits)

lemma cache_kept_getModLatestVersion:
  assumes "cache_kept I s"
  shows "cache_kept I (snd (getModLatestVersion I R now modID s))"
proof (cases "getModVersions R now modID s")
  case (Pair r s1)
  have s1: "cache_kept I s1"
    using cache_kept_getModVersions [OF assms, of R now modID] Pair by simp
  show ?thesis
  proof (cases r)
    case (Inl e)
    with Pair s1 show ?thesis by (simp add: getModLatestVersion_def)
  next
    case (Inr pv)
    obtain place vs where pv: "pv = (place, vs)" by (cases pv)
    show ?thesis
    proof (cases place)
      case (CachedArray k)
      with Pair Inr pv have "k = ''getModVersions_'' @ modID"
        using getModVersions_cached [of R now modID s k vs s1] by simp
      with Pair Inr pv CachedArray s1 show ?thesis
        by (simp add: getModLatestVersion_def Let_def cache_kept_mutateCached kept_def)
    next
      case (OverlayArray m)
      with Pair Inr pv s1 show ?thesis
        by (simp add: getModLatestVersion_def Let_def cache_kept_other_fields)
    qed
  qed
qed

lemma getAvailableSMLVersions_supported:
  assumes "cache_kept I s" and "getAvailableSMLVersions I R now s = (Inr vs, s1)"
  shows "list_all (\<lambda>v. supported I (version_SML v)) vs"
proof -
  have "cache_kept I s1"
    using cache_kept_getAvailableSMLVersions [OF assms(1), of R now] assms(2) by simp
  from cache_kept_SML [OF this getAvailableSMLVersions_cached [OF assms(2)]]
  show ?thesis by simp
qed

lemma cache_kept_getLatestSMLVersion:
  assumes "cache_kept I s"
  shows "cache_kept I (snd (getLatestSMLVersion I R now s))"
proof (cases "getAvailableSMLVersions I R now s")
  case (Pair r s1)
  have s1: "cache_kept I s1"
    using cache_kept_getAvailableSMLVersions [OF assms, of R now] Pair by simp
  show ?thesis
  proof (cases r)
    case (Inl e)
    with Pair s1 show ?thesis by (simp add: getLatestSMLVersion_def)
  next
    case (Inr vs)
    with Pair have "list_all (\<lambda>v. supported I (version_SML v)) vs"
      using getAvailableSMLVersions_supported [OF assms] by simp
    then have "list_all (\<lambda>v. supported I (version_SML v))
                 (array_sort (\<lambda>a b. - compare I (version_SML a) (version_SML b)) vs)"
      by (simp add: list_all_iff set_array_sort)
    with Pair Inr s1 show ?thesis
      by (simp add: getLatestSMLVersion_def Let_def cache_kept_mutateCached kept_def)
  qed
qed

lemma cache_kept_getLatestBootstrapperVersion:
  assumes "cache_kept I s"
  shows "cache_kept I (snd (getLatestBootstrapperVersion I R now s))"
proof (cases "getAvailableBootstrapperVersions R now s")
  case (Pair r s1)
  have s1: "cache_kept I s1"
    using cache_kept_getAvailableBootstrapperVersions [OF assms, of R now] Pair by simp
  with Pair show ?thesis
    by (cases r) (simp_all add: getLatestBootstrapperVersion_def Let_def cache_kept_mutateCached
          kept_def)
qed

lemma cache_kept_finders:
  assumes "cache_kept I s"
  shows "cache_kept I (snd (findVersionMatchingAll I R now modID C s))"
    and "cache_kept I (snd (getSMLVersionInfo I R now ver s))"
    and "cache_kept I (snd (getBootstrapperVersionInfo R now ver s))"
    and "cache_kept I (snd (findAllVersionsMatchingAll I R now modID C s))"
proof -
  have m: "cache_kept I (snd (getMod R now modID s))"
    by (rule cache_kept_getMod [OF assms])
  have l: "cache_kept I (snd (getAvailableSMLVersions I R now s))"
    by (rule cache_kept_getAvailableSMLVersions [OF assms])
  have b: "cache_kept I (snd (getAvailableBootstrapperVersions R now s))"
    by (rule cache_kept_getAvailableBootstrapperVersions [OF assms])
  show "cache_kept I (snd (findVersionMatchingAll I R now modID C s))"
    using m by (auto simp: findVersionMatchingAll_def split: prod.splits sum.splits)
  show "cache_kept I (snd (getSMLVersionInfo I R now ver s))"
    using l by (auto simp: getSMLVersionInfo_def split: prod.splits sum.splits)
  show "cache_kept I (snd (getBootstrapperVersionInfo R now ver s))"
    using b by (auto simp: getBootstrapperVersionInfo_def split: prod.splits sum.splits)
  show "cache_kept I (snd (findAllVersionsMatchingAll I R now modID C s))"
    using m l b by (auto simp: findAllVersionsMatchingAll_def split: prod.splits sum.splits)
qed

lemma cache_kept_overlay:
  assumes "cache_kept I s"
  shows "cache_kept I (setUseTempMods b s)" "cache_kept I (getUseTempMods b s)"
    "cache_kept I (addTempMod m s)" "cache_kept I (addTempModVersion v s)"
    "cache_kept I (removeTempMod modID s)" "cache_kept I (removeTempModVersion modID ver s)"
  using assms
  by (simp_all add: setUseTempMods_def getUseTempMods_def addTempMod_def addTempModVersion_def
        removeTempMod_def removeTempModVersion_def cache_kept_other_fields split: option.splits)

lemma cache_kept_fiscitApiQuery:
  "cache_kept I s \<Longrightarrow> cache_kept I (snd (fiscitApiQuery query vars response s))"
  by (cases "JSON_stringify query vars")
    (simp_all add: fiscitApiQuery_sent fiscitApiQuery_not_sent cache_kept_other_fields)

lemma cache_kept_perform:
  assumes "cache_kept I s"
  shows "cache_kept I (perform I R now c s)"
  using assms
  by (cases c)
    (simp_all add: cache_kept_overlay cache_kept_finders cache_kept_getModDownloadLink
       cache_kept_fiscitApiQuery
       cache_kept_getAvailableMods cache_kept_getMod cache_kept_getModVersions
       cache_kept_getModLatestVersion cache_kept_getAvailableSMLVersions
       cache_kept_getAvailableBootstrapperVersions cache_kept_getLatestSMLVersion
       cache_kept_getLatestBootstrapperVersion)

lemma reachable_cache_kept: "reachable I s \<Longrightarrow> cache_kept I s"
proof (induction rule: reachable.induct)
  case (at_load h)
  show ?case by (simp add: cache_kept_def initial_def)
next
  case (after_call s R now c)
  then show ?case by (simp add: cache_kept_perform)
qed

text \<open>
  So a read of the cache within the cooldown never meets a payload of another kind than
  its request identity's: the \<open>TypeError\<close> of the model's typed reads does not occur.
\<close>

lemma reachable_cache_hit_typed:
  assumes "reachable I s"
  shows "\<not> cooldownPassed s now (''getModDownloadLink_'' @ modID @ ''_'' @ ver) \<Longrightarrow>
           \<exists>l. getModDownloadLink R now modID ver s = (Inr l, s)"
    and "\<not> cooldownPassed s now ''getAvailableMods'' \<Longrightarrow> \<exists>ms. getAvailableMods R now s = (Inr ms, s)"
    and "\<not> cooldownPassed s now (''getMod_'' @ modID) \<Longrightarrow> \<exists>m. getMod R now modID s = (Inr m, s)"
    and "\<not> cooldownPassed s now (''getModVersions_'' @ modID) \<Longrightarrow>
           \<exists>vs. getModVersions R now modID s = (Inr (CachedArray (''getModVersions_'' @ modID), vs), s)"
    and "\<not> cooldownPassed s now ''getSMLVersions'' \<Longrightarrow>
           \<exists>vs. getAvailableSMLVersions I R now s = (Inr vs, s)"
    and "\<not> cooldownPassed s now ''getBootstrapperVersions'' \<Longrightarrow>
           \<exists>vs. getAvailableBootstrapperVersions R now s = (Inr vs, s)"
proof -
  note kept = reachable_cache_kept [OF assms]
  have held: "\<exists>d. getCache s k = Some d" if "\<not> cooldownPassed s now k" for k
    using that by (auto simp: cooldownPassed_def getCache_def split: option.splits)
  show "\<not> cooldownPassed s now (''getModDownloadLink_'' @ modID @ ''_'' @ ver) \<Longrightarrow>
           \<exists>l. getModDownloadLink R now modID ver s = (Inr l, s)"
    using held [of "''getModDownloadLink_'' @ modID @ ''_'' @ ver"] kept_kinds(1) [OF kept, of modID ver]
    by (auto simp: getModDownloadLink_def Let_def)
  show "\<not> cooldownPassed s now ''getAvailableMods'' \<Longrightarrow> \<exists>ms. getAvailableMods R now s = (Inr ms, s)"
    using held [of "''getAvailableMods''"] kept_kinds(2) [OF kept]
    by (auto simp: getAvailableMods_def Let_def)
  show "\<not> cooldownPassed s now (''getMod_'' @ modID) \<Longrightarrow> \<exists>m. getMod R now modID s = (Inr m, s)"
    using held [of "''getMod_'' @ modID"] kept_kinds(3) [OF kept, of modID]
    by (auto simp: getMod_def Let_def)
  show "\<not> cooldownPassed s now (''getModVersions_'' @ modID) \<Longrightarrow>
           \<exists>vs. getModVersions R now modID s = (Inr (CachedArray (''getModVersions_'' @ modID), vs), s)"
    using held [of "''getModVersions_'' @ modID"] kept_kinds(4) [OF kept, of modID]
    by (auto simp: getModVersions_def Let_def)
  show "\<not> cooldownPassed s now ''getSMLVersions'' \<Longrightarrow>
           \<exists>vs. getAvailableSMLVersions I R now s = (Inr vs, s)"
    using held [of "''getSMLVersions''"] kept_kinds(5) [OF kept]
    by (auto simp: getAvailableSMLVersions_def Let_def)
  show "\<not> cooldownPassed s now ''getBootstrapperVersions'' \<Longrightarrow>
           \<exists>vs. getAvailableBootstrapperVersions R now s = (Inr vs, s)"
    using held [of "''getBootstrapperVersions''"] kept_kinds(6) [OF kept]
    by (auto simp: getAvailableBootstrapperVersions_def Let_def)
qed

lemma first_in_set: "first xs = Some x \<Longrightarrow> x \<in> set xs"
  by (cases xs) auto

lemma getAvailableSMLVersions_fetch:
  assumes "cooldownPassed s now ''getSMLVersions''" and "getSMLVersions_response R = Data svs"
  shows "getCache (snd (getAvailableSMLVersions I R now s)) ''getSMLVersions'' =
           Some (SMLVersionsData (map (\<lambda>v. v\<lparr>date_SML := toDate (date_SML v)\<rparr>)
                   (filter (\<lambda>v. supported I (version_SML v)) svs)))"
  using assms
  by (simp add: getAvailableSMLVersions_def query_simps Let_def getCache_setCache supported_def)

lemma getLatestSMLVersion_some_mods:
  "snd (getLatestSMLVersion plain some_mods 0 loaded) =
     setCache 0 ''getSMLVersions'' (SMLVersionsData (map an_sml_version [''2.1.0'', ''2.0.0'']))
       (loaded\<lparr>requests := 1\<rparr>)"
  by (simp add: getLatestSMLVersion_def getAvailableSMLVersions_def some_mods_def loaded_def initial_def
        cooldownPassed_def query_simps getCache_def setCache_def mutateCached_def Let_def
        array_sort_def an_sml_version_def plain_def plain_satisfies_def plain_compare_def)

subsection \<open>Version matching at the loader and the bootstrapper\<close>

lemma versions_satisfying_all_of:
  "versions_satisfying_all I C (map key xs) =
   map key (filter (\<lambda>x. versionSatisfiesAll I (key x) C) xs)"
  by (simp add: versions_satisfying_all_def versionSatisfiesAll_def list_all_iff filter_map comp_def)

lemma findAllVersionsMatchingAll_of_loader:
  assumes "modID = SMLModID I" and "getAvailableSMLVersions I R now s = (Inr svs, s')"
  shows "findAllVersionsMatchingAll I R now modID C s =
           (Inr (versions_satisfying_all I C
                   (filter (\<lambda>v. satisfies I v (''>='' @ minSMLVersion I)) (map version_SML svs))), s')"
proof -
  have "filter (\<lambda>v. satisfies I v (''>='' @ minSMLVersion I)) (map version_SML svs) =
          map version_SML (filter (\<lambda>x. satisfies I (version_SML x) (''>='' @ minSMLVersion I)) svs)"
    by (simp add: filter_map comp_def)
  with assms show ?thesis
    by (simp add: findAllVersionsMatchingAll_def versions_satisfying_all_of)
qed

lemma findAllVersionsMatchingAll_of_bootstrapper:
  assumes "modID \<noteq> SMLModID I" and "modID = BootstrapperModID I"
    and "getAvailableBootstrapperVersions R now s = (Inr bvs, s')"
  shows "findAllVersionsMatchingAll I R now modID C s =
           (Inr (versions_satisfying_all I C (map version_Bootstrapper bvs)), s')"
  using assms by (simp add: findAllVersionsMatchingAll_def versions_satisfying_all_of)

lemma getAvailableSMLVersions_some_mods:
  "getAvailableSMLVersions plain some_mods 0 loaded =
     (Inr (map an_sml_version [''2.0.0'', ''2.1.0'']),
      snd (getAvailableSMLVersions plain some_mods 0 loaded))"
  by (simp add: getAvailableSMLVersions_def some_mods_def loaded_def initial_def cooldownPassed_def
        query_simps getCache_def setCache_def an_sml_version_def plain_def plain_satisfies_def
        plain_compare_def)

lemma getAvailableBootstrapperVersions_some_mods:
  "getAvailableBootstrapperVersions some_mods 0 loaded =
     (Inr (map a_bootstrapper_version [''1.0.0'', ''2.0.10'']),
      snd (getAvailableBootstrapperVersions some_mods 0 loaded))"
  by (simp add: getAvailableBootstrapperVersions_def some_mods_def loaded_def initial_def
        cooldownPassed_def query_simps getCache_def setCache_def a_bootstrapper_version_def)

subsection \<open>What the executor returns\<close>





subsection \<open>Entries that calls leave in place\<close>

lemma same_elements_refl: "same_elements d d"
  by (cases d) simp_all

lemma same_elements_trans:
  "same_elements a b \<Longrightarrow> same_elements b c \<Longrightarrow> same_elements a c"
  by (cases a; cases b; cases c) simp_all

text \<open>within the cooldown of an entry, the six reading functions leave it as it is\<close>

lemma entry_left:
  assumes "cachedFetch s k = Some e" and "now - time e \<le> fetchCooldown"
  shows "cachedFetch (snd (getModDownloadLink R now modID ver s)) k = Some e"
    and "cachedFetch (snd (getAvailableMods R now s)) k = Some e"
    and "cachedFetch (snd (getMod R now modID s)) k = Some e"
    and "cachedFetch (snd (getModVersions R now modID s)) k = Some e"
    and "cachedFetch (snd (getAvailableSMLVersions I R now s)) k = Some e"
    and "cachedFetch (snd (getAvailableBootstrapperVersions R now s)) k = Some e"
  using assms
  by (auto simp: getModDownloadLink_def getAvailableMods_def getMod_def getModVersions_def
        getAvailableSMLVersions_def getAvailableBootstrapperVersions_def
        cooldownPassed_def setCache_def query_simps
        split: response_splits option.splits)

lemma still_held_entry:
  "cachedFetch s k = Some e \<Longrightarrow> still_held k (time e) (data e) s"
  by (simp add: still_held_def same_elements_refl)

lemma still_held_mutateCached:
  assumes "cachedFetch s k = Some e"
    and "k' = k \<longrightarrow> same_elements (data e) d'"
  shows "still_held k (time e) (data e) (mutateCached k' d' s)"
  using assms
  by (auto simp: still_held_def mutateCached_def same_elements_refl split: option.splits)

lemma still_held_getModLatestVersion:
  assumes "cachedFetch s k = Some e" and "now - time e \<le> fetchCooldown"
  shows "still_held k (time e) (data e) (snd (getModLatestVersion I R now modID s))"
proof (cases "getModVersions R now modID s")
  case (Pair r s1)
  have s1: "cachedFetch s1 k = Some e"
    using entry_left(4) [OF assms, of R modID] Pair by simp
  show ?thesis
  proof (cases r)
    case (Inl x)
    with Pair s1 show ?thesis by (simp add: getModLatestVersion_def still_held_entry)
  next
    case (Inr pv)
    obtain place vs where pv: "pv = (place, vs)" by (cases pv)
    show ?thesis
    proof (cases place)
      case (CachedArray k')
      from Pair Inr pv CachedArray
      have "getModVersions R now modID s = (Inr (CachedArray k', vs), s1)" by simp
      from getModVersions_cached [OF this]
      have held: "getCache s1 k' = Some (VersionsData vs)" by blast
      have "k' = k \<longrightarrow> same_elements (data e)
              (VersionsData (array_sort (\<lambda>a b. - compare I (version a) (version b)) vs))"
        using held s1 by (auto simp: getCache_def mset_array_sort)
      from still_held_mutateCached [OF s1 this] Pair Inr pv CachedArray show ?thesis
        by (simp add: getModLatestVersion_def Let_def)
    next
      case (OverlayArray m)
      with Pair Inr pv s1 show ?thesis
        by (simp add: getModLatestVersion_def Let_def still_held_def same_elements_refl)
    qed
  qed
qed

lemma still_held_getLatestSMLVersion:
  assumes "cachedFetch s k = Some e" and "now - time e \<le> fetchCooldown"
  shows "still_held k (time e) (data e) (snd (getLatestSMLVersion I R now s))"
proof (cases "getAvailableSMLVersions I R now s")
  case (Pair r s1)
  have s1: "cachedFetch s1 k = Some e"
    using entry_left(5) [OF assms, of I R] Pair by simp
  show ?thesis
  proof (cases r)
    case (Inl x)
    with Pair s1 show ?thesis by (simp add: getLatestSMLVersion_def still_held_entry)
  next
    case (Inr vs)
    with Pair have "getAvailableSMLVersions I R now s = (Inr vs, s1)" by simp
    from getAvailableSMLVersions_cached [OF this]
    have held: "getCache s1 ''getSMLVersions'' = Some (SMLVersionsData vs)" .
    have "''getSMLVersions'' = k \<longrightarrow> same_elements (data e)
            (SMLVersionsData (array_sort (\<lambda>a b. - compare I (version_SML a) (version_SML b)) vs))"
      using held s1 by (auto simp: getCache_def mset_array_sort)
    from still_held_mutateCached [OF s1 this] Pair Inr show ?thesis
      by (simp add: getLatestSMLVersion_def Let_def)
  qed
qed

lemma still_held_getLatestBootstrapperVersion:
  assumes "cachedFetch s k = Some e" and "now - time e \<le> fetchCooldown"
  shows "still_held k (time e) (data e) (snd (getLatestBootstrapperVersion I R now s))"
proof (cases "getAvailableBootstrapperVersions R now s")
  case (Pair r s1)
  have s1: "cachedFetch s1 k = Some e"
    using entry_left(6) [OF assms, of R] Pair by simp
  show ?thesis
  proof (cases r)
    case (Inl x)
    with Pair s1 show ?thesis by (simp add: getLatestBootstrapperVersion_def still_held_entry)
  next
    case (Inr vs)
    with Pair have "getAvailableBootstrapperVersions R now s = (Inr vs, s1)" by simp
    from getAvailableBootstrapperVersions_cached [OF this]
    have held: "getCache s1 ''getBootstrapperVersions'' = Some (BootstrapperVersionsData vs)" .
    have "''getBootstrapperVersions'' = k \<longrightarrow> same_elements (data e)
            (BootstrapperVersionsData
               (array_sort (\<lambda>a b. - compare I (version_Bootstrapper a) (version_Bootstrapper b)) vs))"
      using held s1 by (auto simp: getCache_def mset_array_sort)
    from still_held_mutateCached [OF s1 this] Pair Inr show ?thesis
      by (simp add: getLatestBootstrapperVersion_def Let_def)
  qed
qed

lemma still_held_finders:
  assumes "cachedFetch s k = Some e" and "now - time e \<le> fetchCooldown"
  shows "still_held k (time e) (data e) (snd (findVersionMatchingAll I R now modID C s))"
    and "still_held k (time e) (data e) (snd (getSMLVersionInfo I R now ver s))"
    and "still_held k (time e) (data e) (snd (getBootstrapperVersionInfo R now ver s))"
    and "still_held k (time e) (data e) (snd (findAllVersionsMatchingAll I R now modID C s))"
proof -
  have m: "cachedFetch (snd (getMod R now modID s)) k = Some e"
    by (rule entry_left(3) [OF assms])
  have l: "cachedFetch (snd (getAvailableSMLVersions I R now s)) k = Some e"
    by (rule entry_left(5) [OF assms])
  have b: "cachedFetch (snd (getAvailableBootstrapperVersions R now s)) k = Some e"
    by (rule entry_left(6) [OF assms])
  show "still_held k (time e) (data e) (snd (findVersionMatchingAll I R now modID C s))"
    using m by (auto simp: findVersionMatchingAll_def still_held_entry split: prod.splits sum.splits)
  show "still_held k (time e) (data e) (snd (getSMLVersionInfo I R now ver s))"
    using l by (auto simp: getSMLVersionInfo_def still_held_entry split: prod.splits sum.splits)
  show "still_held k (time e) (data e) (snd (getBootstrapperVersionInfo R now ver s))"
    using b by (auto simp: getBootstrapperVersionInfo_def still_held_entry split: prod.splits sum.splits)
  show "still_held k (time e) (data e) (snd (findAllVersionsMatchingAll I R now modID C s))"
    using m l b
    by (auto simp: findAllVersionsMatchingAll_def still_held_entry split: prod.splits sum.splits)
qed

lemma still_held_overlay:
  assumes "cachedFetch s k = Some e"
  shows "still_held k (time e) (data e) (setUseTempMods b s)"
    "still_held k (time e) (data e) (getUseTempMods b s)"
    "still_held k (time e) (data e) (addTempMod m s)"
    "still_held k (time e) (data e) (addTempModVersion v s)"
    "still_held k (time e) (data e) (removeTempMod modID s)"
    "still_held k (time e) (data e) (removeTempModVersion modID ver s)"
    "still_held k (time e) (data e) (snd (fiscitApiQuery query vars response s))"
proof -
  show "still_held k (time e) (data e) (snd (fiscitApiQuery query vars response s))"
    using assms
    by (cases "JSON_stringify query vars")
      (simp_all add: fiscitApiQuery_sent fiscitApiQuery_not_sent still_held_def same_elements_refl)
qed (use assms in \<open>simp_all add: setUseTempMods_def getUseTempMods_def addTempMod_def
        addTempModVersion_def removeTempMod_def removeTempModVersion_def still_held_def
        same_elements_refl split: option.splits\<close>)

lemma still_held_perform:
  assumes "cachedFetch s k = Some e" and "now - time e \<le> fetchCooldown"
  shows "still_held k (time e) (data e) (perform I R now c s)"
proof (cases c)
  case (GetModLatestVersion modID)
  then show ?thesis using still_held_getModLatestVersion [OF assms] by simp
next
  case GetLatestSMLVersion
  then show ?thesis using still_held_getLatestSMLVersion [OF assms] by simp
next
  case GetLatestBootstrapperVersion
  then show ?thesis using still_held_getLatestBootstrapperVersion [OF assms] by simp
qed (simp_all add: still_held_overlay [OF assms(1)] still_held_finders [OF assms]
       entry_left [OF assms] still_held_entry)

lemma still_held_run:
  assumes "still_held k t d s" and "\<forall>step \<in> set steps. fst (snd step) - t \<le> fetchCooldown"
  shows "still_held k t d (run I steps s)"
  using assms
proof (induction steps arbitrary: s)
  case Nil
  then show ?case by simp
next
  case (Cons step steps)
  obtain R now c where step: "step = (R, now, c)" by (cases step)
  from Cons.prems(1) obtain e where e: "cachedFetch s k = Some e" "time e = t" "same_elements d (data e)"
    by (auto simp: still_held_def split: option.splits)
  from Cons.prems(2) step e(2) have "now - time e \<le> fetchCooldown" by simp
  from still_held_perform [OF e(1) this, of I R c]
  obtain e' where e': "cachedFetch (perform I R now c s) k = Some e'" "time e' = t"
      "same_elements (data e) (data e')"
    using e(2) by (auto simp: still_held_def split: option.splits)
  from e(3) e'(3) have "same_elements d (data e')" by (rule same_elements_trans)
  with e' have "still_held k t d (perform I R now c s)" by (simp add: still_held_def)
  from Cons.IH [OF this] Cons.prems(2) step show ?case by simp
qed

lemma entry_fresh:
  assumes "cachedFetch s k = Some \<lparr>time = t, data = d\<rparr>" and "t' - t \<le> fetchCooldown"
  shows "\<not> cooldownPassed s t' k" and "getCache s k = Some d"
  using assms by (simp_all add: cooldownPassed_def getCache_def)

lemma entry_stale:
  assumes "cachedFetch s k = Some \<lparr>time = t, data = d\<rparr>" and "fetchCooldown < t' - t"
  shows "cooldownPassed s t' k"
  using assms by (simp add: cooldownPassed_def)

lemma mutateCached_setCache:
  "mutateCached k d' (setCache t k d s) = setCache t k d' s"
  by (simp add: mutateCached_def setCache_def)

lemma written_versions:
  "cachedFetch (setCache 0 ''getModVersions_modA''
       (VersionsData (map (a_version ''modA'') [''1.0.0'', ''2.0.0''])) loaded) ''getModVersions_modA'' =
     Some \<lparr>time = 0, data = VersionsData (map (a_version ''modA'') [''1.0.0'', ''2.0.0''])\<rparr>"
  by (simp add: setCache_def)

section \<open>The claims\<close>

text \<open>
  C1, as the code has it. \<open>findAllVersionsMatchingAll\<close> returns the versions of a list
  \<open>V\<close> that satisfy every constraint, in the order of \<open>V\<close>, where \<open>V\<close> is: for a mod
  identifier other than the loader's and the bootstrapper's, the version list of the mod's
  record (the one \<open>getMod\<close> returns); for the loader's identifier, the versions that
  \<open>getAvailableSMLVersions\<close> returns and that are in the range \<open>>=minSMLVersion\<close>; for
  the bootstrapper's identifier, the versions that \<open>getAvailableBootstrapperVersions\<close>
  returns. For every mod identifier, \<open>findVersionMatchingAll\<close> returns the first version
  of the mod's record that satisfies every constraint, and \<open>undefined\<close> exactly when
  there is none. (\<open>versionSatisfiesAll\<close> is modelled from the spec.)
\<close>

theorem versions_matching_all_of_version_list:
  "(modID \<noteq> SMLModID I \<and> modID \<noteq> BootstrapperModID I \<and> getMod R now modID s = (Inr m, s') \<longrightarrow>
      findAllVersionsMatchingAll I R now modID C s =
        (Inr (versions_satisfying_all I C (map version (versions m))), s'))
   \<and> (modID = SMLModID I \<and> getAvailableSMLVersions I R now s = (Inr svs, s') \<longrightarrow>
      findAllVersionsMatchingAll I R now modID C s =
        (Inr (versions_satisfying_all I C
                (filter (\<lambda>v. satisfies I v (''>='' @ minSMLVersion I)) (map version_SML svs))), s'))
   \<and> (modID \<noteq> SMLModID I \<and> modID = BootstrapperModID I
        \<and> getAvailableBootstrapperVersions R now s = (Inr bvs, s') \<longrightarrow>
      findAllVersionsMatchingAll I R now modID C s =
        (Inr (versions_satisfying_all I C (map version_Bootstrapper bvs)), s'))
   \<and> (getMod R now modID s = (Inr m, s') \<longrightarrow>
      findVersionMatchingAll I R now modID C s =
        (Inr (first (versions_satisfying_all I C (map version (versions m)))), s')
      \<and> (fst (findVersionMatchingAll I R now modID C s) = Inr None \<longleftrightarrow>
           versions_satisfying_all I C (map version (versions m)) = []))"
proof (intro conjI impI)
  assume "modID \<noteq> SMLModID I \<and> modID \<noteq> BootstrapperModID I \<and> getMod R now modID s = (Inr m, s')"
  then show "findAllVersionsMatchingAll I R now modID C s =
        (Inr (versions_satisfying_all I C (map version (versions m))), s')"
    by (simp add: findAllVersionsMatchingAll_of_mod)
next
  assume "modID = SMLModID I \<and> getAvailableSMLVersions I R now s = (Inr svs, s')"
  then show "findAllVersionsMatchingAll I R now modID C s =
        (Inr (versions_satisfying_all I C
                (filter (\<lambda>v. satisfies I v (''>='' @ minSMLVersion I)) (map version_SML svs))), s')"
    using findAllVersionsMatchingAll_of_loader by blast
next
  assume "modID \<noteq> SMLModID I \<and> modID = BootstrapperModID I
        \<and> getAvailableBootstrapperVersions R now s = (Inr bvs, s')"
  then show "findAllVersionsMatchingAll I R now modID C s =
        (Inr (versions_satisfying_all I C (map version_Bootstrapper bvs)), s')"
    using findAllVersionsMatchingAll_of_bootstrapper by blast
next
  assume m: "getMod R now modID s = (Inr m, s')"
  then show "findVersionMatchingAll I R now modID C s =
        (Inr (first (versions_satisfying_all I C (map version (versions m)))), s')"
    by (rule findVersionMatchingAll_of_mod)
  from m show "fst (findVersionMatchingAll I R now modID C s) = Inr None \<longleftrightarrow>
           versions_satisfying_all I C (map version (versions m)) = []"
    by (simp add: findVersionMatchingAll_of_mod first_None)
qed

theorem versions_matching_all_of_version_list_witness:
  "fst (findAllVersionsMatchingAll plain some_mods 0 ''modA'' [''>=1.5.0''] loaded) = Inr [''2.0.0'']
   \<and> fst (findAllVersionsMatchingAll plain some_mods 0 ''SML'' [''>=2.0.5''] loaded) = Inr [''2.1.0'']
   \<and> fst (findAllVersionsMatchingAll plain some_mods 0 ''bootstrapper'' [''>=1.5.0''] loaded) =
        Inr [''2.0.10'']
   \<and> fst (findVersionMatchingAll plain some_mods 0 ''modA'' [''>=0.1.0''] loaded) = Inr (Some ''1.0.0'')
   \<and> fst (findVersionMatchingAll plain some_mods 0 ''modA'' [''>=0.1.0'', ''>=3.0.0''] loaded) = Inr None"
proof -
  have ids: "SMLModID plain = ''SML''" "BootstrapperModID plain = ''bootstrapper''"
    by (simp_all add: plain_def)
  have 1: "fst (findAllVersionsMatchingAll plain some_mods 0 ''modA'' [''>=1.5.0''] loaded) = Inr [''2.0.0'']"
    using versions_matching_all_of_version_list
      [of "''modA''" plain some_mods 0 loaded "a_mod ''modA'' [''1.0.0'', ''2.0.0'']" _ "[''>=1.5.0'']"]
      getMod_some_mods
    by (simp add: versions_satisfying_all_def a_mod_def a_version_def plain_def
          plain_satisfies_def plain_compare_def)
  have 2: "fst (findAllVersionsMatchingAll plain some_mods 0 ''SML'' [''>=2.0.5''] loaded) = Inr [''2.1.0'']"
    using versions_matching_all_of_version_list
      [of "''SML''" plain some_mods 0 loaded _ "snd (getAvailableSMLVersions plain some_mods 0 loaded)"
          "[''>=2.0.5'']" "map an_sml_version [''2.0.0'', ''2.1.0'']"]
      getAvailableSMLVersions_some_mods
    by (simp add: versions_satisfying_all_def an_sml_version_def plain_def
          plain_satisfies_def plain_compare_def)
  have 3: "fst (findAllVersionsMatchingAll plain some_mods 0 ''bootstrapper'' [''>=1.5.0''] loaded) =
        Inr [''2.0.10'']"
    using versions_matching_all_of_version_list
      [of "''bootstrapper''" plain some_mods 0 loaded _
          "snd (getAvailableBootstrapperVersions some_mods 0 loaded)"
          "[''>=1.5.0'']" _ "map a_bootstrapper_version [''1.0.0'', ''2.0.10'']"]
      getAvailableBootstrapperVersions_some_mods
    by (simp add: versions_satisfying_all_def a_bootstrapper_version_def plain_def
          plain_satisfies_def plain_compare_def)
  have 4: "fst (findVersionMatchingAll plain some_mods 0 ''modA'' [''>=0.1.0''] loaded) = Inr (Some ''1.0.0'')"
    using versions_matching_all_of_version_list
      [of "''modA''" plain some_mods 0 loaded "a_mod ''modA'' [''1.0.0'', ''2.0.0'']" _ "[''>=0.1.0'']"]
      getMod_some_mods
    by (simp add: versions_satisfying_all_def a_mod_def a_version_def plain_def
          plain_satisfies_def plain_compare_def)
  have 5: "fst (findVersionMatchingAll plain some_mods 0 ''modA'' [''>=0.1.0'', ''>=3.0.0''] loaded) = Inr None"
    using versions_matching_all_of_version_list
      [of "''modA''" plain some_mods 0 loaded "a_mod ''modA'' [''1.0.0'', ''2.0.0'']" _
          "[''>=0.1.0'', ''>=3.0.0'']"]
      getMod_some_mods
    by (simp add: versions_satisfying_all_def a_mod_def a_version_def plain_def
          plain_satisfies_def plain_compare_def)
  from 1 2 3 4 5 show ?thesis by simp
qed

text \<open>
  C1 as stated fails at the loader's identifier and at the bootstrapper's: the registry
  holds a record under \<open>SML\<close> and one under \<open>bootstrapper\<close>, each with the versions
  1.0.0 and 2.0.0, both of which satisfy the empty constraint list, and
  \<open>findAllVersionsMatchingAll\<close> returns the supported loader versions 2.0.0 and 2.1.0
  at the first, the bootstrapper versions 1.0.0 and 2.0.10 at the second.
\<close>

theorem versions_matching_all_loader_counterexample:
  "fst (getMod some_mods 0 ''SML'' loaded) = Inr (a_mod ''SML'' [''1.0.0'', ''2.0.0''])
   \<and> versions_satisfying_all plain [] (map version (versions (a_mod ''SML'' [''1.0.0'', ''2.0.0'']))) =
        [''1.0.0'', ''2.0.0'']
   \<and> fst (findAllVersionsMatchingAll plain some_mods 0 ''SML'' [] loaded) = Inr [''2.0.0'', ''2.1.0'']
   \<and> fst (getMod some_mods 0 ''bootstrapper'' loaded) = Inr (a_mod ''bootstrapper'' [''1.0.0'', ''2.0.0''])
   \<and> versions_satisfying_all plain []
        (map version (versions (a_mod ''bootstrapper'' [''1.0.0'', ''2.0.0'']))) = [''1.0.0'', ''2.0.0'']
   \<and> fst (findAllVersionsMatchingAll plain some_mods 0 ''bootstrapper'' [] loaded) =
        Inr [''1.0.0'', ''2.0.10'']"
  by (simp add: getMod_def findAllVersionsMatchingAll_def getAvailableSMLVersions_def
        getAvailableBootstrapperVersions_def
        some_mods_def loaded_def initial_def cooldownPassed_def query_simps
        getCache_def setCache_def a_mod_def a_version_def an_sml_version_def a_bootstrapper_version_def
        versions_satisfying_all_def
        plain_def plain_satisfies_def plain_compare_def versionSatisfiesAll_def)

text \<open>
  C2, as the code has it. Let an entry be written at time \<open>t\<close> under a request identity.
  After any sequence of calls made at times \<open>t'\<close> with \<open>t' - t \<le> 5\<close> minutes, the
  identity still has an entry with the time \<open>t\<close> and the elements of the payload written,
  an array possibly in another order (a latest-version call sorts the cached array in
  place). A read at such a time sends no request and returns the payload that the entry
  holds at the read; an overlay mod object among the elements of a cached array of mods is
  returned with the content it has at the read. At a read with \<open>t' - t > 5\<close> minutes the
  entry is treated as absent: one request is sent, and the call returns or throws what it
  would with no entry under that request identity. The first two conjuncts are the cache's
  own functions, the third is about sequences of calls, the others are about the six
  functions that read through the cache, in any state \<open>u\<close> with such an entry.
\<close>

theorem cache_entry_served_until_cooldown_passed:
  fixes t t' :: int
  shows
  "cooldownPassed (setCache t k d s) t' k = (fetchCooldown < t' - t)
   \<and> getCache (setCache t k d s) k = Some d
   \<and> ((\<forall>step \<in> set steps. fst (snd step) - t \<le> fetchCooldown) \<longrightarrow>
        still_held k t d (run I steps (setCache t k d s)))
   \<and> (t' - t \<le> fetchCooldown \<longrightarrow>
        (cachedFetch u (''getModDownloadLink_'' @ modID @ ''_'' @ ver) = Some \<lparr>time = t, data = LinkData l\<rparr>
           \<longrightarrow> getModDownloadLink R t' modID ver u = (Inr l, u))
      \<and> (cachedFetch u ''getAvailableMods'' = Some \<lparr>time = t, data = ModsData es\<rparr>
           \<longrightarrow> getAvailableMods R t' u = (Inr (map (element (objects u)) es), u))
      \<and> (cachedFetch u (''getMod_'' @ modID) = Some \<lparr>time = t, data = ModData m\<rparr>
           \<longrightarrow> getMod R t' modID u = (Inr m, u))
      \<and> (cachedFetch u (''getModVersions_'' @ modID) = Some \<lparr>time = t, data = VersionsData vs\<rparr>
           \<longrightarrow> getModVersions R t' modID u =
                 (Inr (CachedArray (''getModVersions_'' @ modID), vs), u))
      \<and> (cachedFetch u ''getSMLVersions'' = Some \<lparr>time = t, data = SMLVersionsData svs\<rparr>
           \<longrightarrow> getAvailableSMLVersions I R t' u = (Inr svs, u))
      \<and> (cachedFetch u ''getBootstrapperVersions'' =
             Some \<lparr>time = t, data = BootstrapperVersionsData bvs\<rparr>
           \<longrightarrow> getAvailableBootstrapperVersions R t' u = (Inr bvs, u)))
   \<and> (fetchCooldown < t' - t \<longrightarrow>
        (cachedFetch u (''getModDownloadLink_'' @ modID @ ''_'' @ ver) = Some \<lparr>time = t, data = old\<rparr>
           \<longrightarrow> requests (snd (getModDownloadLink R t' modID ver u)) = Suc (requests u)
             \<and> fst (getModDownloadLink R t' modID ver u) =
                 fst (getModDownloadLink R t' modID ver
                        (without_entry (''getModDownloadLink_'' @ modID @ ''_'' @ ver) u)))
      \<and> (cachedFetch u ''getAvailableMods'' = Some \<lparr>time = t, data = old\<rparr>
           \<longrightarrow> requests (snd (getAvailableMods R t' u)) = Suc (requests u)
             \<and> fst (getAvailableMods R t' u) =
                 fst (getAvailableMods R t' (without_entry ''getAvailableMods'' u)))
      \<and> (cachedFetch u (''getMod_'' @ modID) = Some \<lparr>time = t, data = old\<rparr>
           \<longrightarrow> requests (snd (getMod R t' modID u)) = Suc (requests u)
             \<and> fst (getMod R t' modID u) =
                 fst (getMod R t' modID (without_entry (''getMod_'' @ modID) u)))
      \<and> (cachedFetch u (''getModVersions_'' @ modID) = Some \<lparr>time = t, data = old\<rparr>
           \<longrightarrow> requests (snd (getModVersions R t' modID u)) = Suc (requests u)
             \<and> fst (getModVersions R t' modID u) =
                 fst (getModVersions R t' modID (without_entry (''getModVersions_'' @ modID) u)))
      \<and> (cachedFetch u ''getSMLVersions'' = Some \<lparr>time = t, data = old\<rparr>
           \<longrightarrow> requests (snd (getAvailableSMLVersions I R t' u)) = Suc (requests u)
             \<and> fst (getAvailableSMLVersions I R t' u) =
                 fst (getAvailableSMLVersions I R t' (without_entry ''getSMLVersions'' u)))
      \<and> (cachedFetch u ''getBootstrapperVersions'' = Some \<lparr>time = t, data = old\<rparr>
           \<longrightarrow> requests (snd (getAvailableBootstrapperVersions R t' u)) = Suc (requests u)
             \<and> fst (getAvailableBootstrapperVersions R t' u) =
                 fst (getAvailableBootstrapperVersions R t'
                        (without_entry ''getBootstrapperVersions'' u))))"
proof (intro conjI impI)
  show "cooldownPassed (setCache t k d s) t' k = (fetchCooldown < t' - t)"
    by (rule cooldownPassed_setCache)
  show "getCache (setCache t k d s) k = Some d"
    by (rule getCache_setCache)
next
  assume "\<forall>step \<in> set steps. fst (snd step) - t \<le> fetchCooldown"
  moreover have "still_held k t d (setCache t k d s)"
    by (simp add: still_held_def setCache_def same_elements_refl)
  ultimately show "still_held k t d (run I steps (setCache t k d s))"
    by (rule still_held_run [rotated])
next
  assume w: "t' - t \<le> fetchCooldown"
  {
    assume e: "cachedFetch u (''getModDownloadLink_'' @ modID @ ''_'' @ ver) =
                 Some \<lparr>time = t, data = LinkData l\<rparr>"
    show "getModDownloadLink R t' modID ver u = (Inr l, u)"
      using entry_fresh [OF e w] by (simp add: getModDownloadLink_def Let_def)
  }
  {
    assume e: "cachedFetch u ''getAvailableMods'' = Some \<lparr>time = t, data = ModsData es\<rparr>"
    show "getAvailableMods R t' u = (Inr (map (element (objects u)) es), u)"
      using entry_fresh [OF e w] by (simp add: getAvailableMods_def Let_def)
  }
  {
    assume e: "cachedFetch u (''getMod_'' @ modID) = Some \<lparr>time = t, data = ModData m\<rparr>"
    show "getMod R t' modID u = (Inr m, u)"
      using entry_fresh [OF e w] by (simp add: getMod_def Let_def)
  }
  {
    assume e: "cachedFetch u (''getModVersions_'' @ modID) = Some \<lparr>time = t, data = VersionsData vs\<rparr>"
    show "getModVersions R t' modID u = (Inr (CachedArray (''getModVersions_'' @ modID), vs), u)"
      using entry_fresh [OF e w] by (simp add: getModVersions_def Let_def)
  }
  {
    assume e: "cachedFetch u ''getSMLVersions'' = Some \<lparr>time = t, data = SMLVersionsData svs\<rparr>"
    show "getAvailableSMLVersions I R t' u = (Inr svs, u)"
      using entry_fresh [OF e w] by (simp add: getAvailableSMLVersions_def Let_def)
  }
  {
    assume e: "cachedFetch u ''getBootstrapperVersions'' =
                 Some \<lparr>time = t, data = BootstrapperVersionsData bvs\<rparr>"
    show "getAvailableBootstrapperVersions R t' u = (Inr bvs, u)"
      using entry_fresh [OF e w] by (simp add: getAvailableBootstrapperVersions_def Let_def)
  }
next
  assume w: "fetchCooldown < t' - t"
  {
    assume e: "cachedFetch u (''getModDownloadLink_'' @ modID @ ''_'' @ ver) = Some \<lparr>time = t, data = old\<rparr>"
    from getModDownloadLink_miss [OF entry_stale [OF e w]]
    show "requests (snd (getModDownloadLink R t' modID ver u)) = Suc (requests u)"
      and "fst (getModDownloadLink R t' modID ver u) =
                 fst (getModDownloadLink R t' modID ver
                        (without_entry (''getModDownloadLink_'' @ modID @ ''_'' @ ver) u))"
      by blast+
  }
  {
    assume e: "cachedFetch u ''getAvailableMods'' = Some \<lparr>time = t, data = old\<rparr>"
    from getAvailableMods_miss [OF entry_stale [OF e w]]
    show "requests (snd (getAvailableMods R t' u)) = Suc (requests u)"
      and "fst (getAvailableMods R t' u) =
                 fst (getAvailableMods R t' (without_entry ''getAvailableMods'' u))"
      by blast+
  }
  {
    assume e: "cachedFetch u (''getMod_'' @ modID) = Some \<lparr>time = t, data = old\<rparr>"
    from getMod_miss [OF entry_stale [OF e w]]
    show "requests (snd (getMod R t' modID u)) = Suc (requests u)"
      and "fst (getMod R t' modID u) =
                 fst (getMod R t' modID (without_entry (''getMod_'' @ modID) u))"
      by blast+
  }
  {
    assume e: "cachedFetch u (''getModVersions_'' @ modID) = Some \<lparr>time = t, data = old\<rparr>"
    from getModVersions_miss [OF entry_stale [OF e w]]
    show "requests (snd (getModVersions R t' modID u)) = Suc (requests u)"
      and "fst (getModVersions R t' modID u) =
                 fst (getModVersions R t' modID (without_entry (''getModVersions_'' @ modID) u))"
      by blast+
  }
  {
    assume e: "cachedFetch u ''getSMLVersions'' = Some \<lparr>time = t, data = old\<rparr>"
    from getAvailableSMLVersions_miss [OF entry_stale [OF e w]]
    show "requests (snd (getAvailableSMLVersions I R t' u)) = Suc (requests u)"
      and "fst (getAvailableSMLVersions I R t' u) =
                 fst (getAvailableSMLVersions I R t' (without_entry ''getSMLVersions'' u))"
      by blast+
  }
  {
    assume e: "cachedFetch u ''getBootstrapperVersions'' = Some \<lparr>time = t, data = old\<rparr>"
    from getAvailableBootstrapperVersions_miss [OF entry_stale [OF e w]]
    show "requests (snd (getAvailableBootstrapperVersions R t' u)) = Suc (requests u)"
      and "fst (getAvailableBootstrapperVersions R t' u) =
                 fst (getAvailableBootstrapperVersions R t'
                        (without_entry ''getBootstrapperVersions'' u))"
      by blast+
  }
qed

theorem cache_entry_served_until_cooldown_passed_witness:
  "still_held ''getModVersions_modA'' 0 (VersionsData (map (a_version ''modA'') [''1.0.0'', ''2.0.0'']))
      (run plain [(out_of_reach, 1, GetModLatestVersion ''modA''), (some_mods, 300000, GetMod ''modA'')]
         (setCache 0 ''getModVersions_modA''
            (VersionsData (map (a_version ''modA'') [''1.0.0'', ''2.0.0''])) loaded))
   \<and> getModVersions out_of_reach 300000 ''modA''
        (setCache 0 ''getModVersions_modA''
           (VersionsData (map (a_version ''modA'') [''1.0.0'', ''2.0.0''])) loaded) =
      (Inr (CachedArray ''getModVersions_modA'', map (a_version ''modA'') [''1.0.0'', ''2.0.0'']),
       setCache 0 ''getModVersions_modA''
           (VersionsData (map (a_version ''modA'') [''1.0.0'', ''2.0.0''])) loaded)
   \<and> requests (snd (getModVersions out_of_reach 300001 ''modA''
        (setCache 0 ''getModVersions_modA''
           (VersionsData (map (a_version ''modA'') [''1.0.0'', ''2.0.0''])) loaded))) = 1
   \<and> fst (getModVersions out_of_reach 300001 ''modA''
        (setCache 0 ''getModVersions_modA''
           (VersionsData (map (a_version ''modA'') [''1.0.0'', ''2.0.0''])) loaded)) =
      Inl (Thrown (Error ''Network error. Please try again later.''))"
proof -
  let ?d = "VersionsData (map (a_version ''modA'') [''1.0.0'', ''2.0.0''])"
  let ?s = "setCache 0 ''getModVersions_modA'' ?d loaded"
  note inst = cache_entry_served_until_cooldown_passed
    [where t = 0 and k = "''getModVersions_modA''" and d = "?d" and s = loaded and u = "?s"
       and modID = "''modA''" and R = out_of_reach and I = plain
       and vs = "map (a_version ''modA'') [''1.0.0'', ''2.0.0'']" and old = "?d"]
  have 1: "still_held ''getModVersions_modA'' 0 ?d
      (run plain [(out_of_reach, 1, GetModLatestVersion ''modA''), (some_mods, 300000, GetMod ''modA'')] ?s)"
    using inst [where steps = "[(out_of_reach, 1, GetModLatestVersion ''modA''),
                                (some_mods, 300000, GetMod ''modA'')]",
               THEN conjunct2, THEN conjunct2, THEN conjunct1]
    by (simp add: fetchCooldown_def)
  have 2: "getModVersions out_of_reach 300000 ''modA'' ?s =
      (Inr (CachedArray ''getModVersions_modA'', map (a_version ''modA'') [''1.0.0'', ''2.0.0'']), ?s)"
    using inst [where t' = 300000, THEN conjunct2, THEN conjunct2, THEN conjunct2, THEN conjunct1]
      written_versions
    by (simp add: fetchCooldown_def)
  have 3: "requests (snd (getModVersions out_of_reach 300001 ''modA'' ?s)) = 1
     \<and> fst (getModVersions out_of_reach 300001 ''modA'' ?s) =
        fst (getModVersions out_of_reach 300001 ''modA'' (without_entry ''getModVersions_modA'' ?s))"
    using inst [where t' = 300001, THEN conjunct2, THEN conjunct2, THEN conjunct2, THEN conjunct2]
      written_versions
    by (simp add: fetchCooldown_def setCache_fields loaded_def initial_def)
  have 4: "fst (getModVersions out_of_reach 300001 ''modA'' (without_entry ''getModVersions_modA'' ?s)) =
      Inl (Thrown (Error ''Network error. Please try again later.''))"
    by (simp add: getModVersions_def cooldownPassed_without_entry query_simps out_of_reach_def)
  from 1 2 3 4 show ?thesis by simp
qed

text \<open>
  C2 as stated fails in three ways. At the boundary: an entry written at time 0 by a first
  call is still served 300000 milliseconds later, with an endpoint out of reach, and no
  request is sent. At a read after a latest-version call: \<open>getModVersions\<close> stores the
  versions 1.0.0, 2.0.0 at time 0, \<open>getModLatestVersion\<close> at time 1 sorts that array, and
  the read at time 1000 returns 2.0.0, 1.0.0, the one request being that of the first call.
  At a read after a change of the overlay: \<open>getAvailableMods\<close> stores at time 0 an array
  that ends with the overlay's mod object, a version is added to that object, and the read
  at time 1000 returns the object with the version added, again with one request in all.
\<close>

theorem cache_entry_served_at_five_minutes:
  "(5 * 60 * 1000 :: int) \<le> 300000 - 0
   \<and> getModDownloadLink out_of_reach 300000 ''modA'' ''1.0.0''
        (snd (getModDownloadLink some_mods 0 ''modA'' ''1.0.0'' loaded))
      = (Inr ''https://api.ficsit.app/files/a.zip'',
         snd (getModDownloadLink some_mods 0 ''modA'' ''1.0.0'' loaded))
   \<and> requests (snd (getModDownloadLink some_mods 0 ''modA'' ''1.0.0'' loaded)) = 1
   \<and> fst (getModVersions some_mods 0 ''modA'' loaded) =
        Inr (CachedArray ''getModVersions_modA'', map (a_version ''modA'') [''1.0.0'', ''2.0.0''])
   \<and> getModVersions out_of_reach 1000 ''modA''
        (snd (getModLatestVersion plain out_of_reach 1 ''modA''
           (snd (getModVersions some_mods 0 ''modA'' loaded))))
      = (Inr (CachedArray ''getModVersions_modA'', map (a_version ''modA'') [''2.0.0'', ''1.0.0'']),
         snd (getModLatestVersion plain out_of_reach 1 ''modA''
           (snd (getModVersions some_mods 0 ''modA'' loaded))))
   \<and> requests (snd (getModLatestVersion plain out_of_reach 1 ''modA''
           (snd (getModVersions some_mods 0 ''modA'' loaded)))) = 1
   \<and> fst (getAvailableMods some_mods 0 (addTempMod 0 (setUseTempMods True loaded))) =
        Inr [a_mod ''modA'' [''1.0.0'', ''2.0.0''], a_mod ''modA'' []]
   \<and> getAvailableMods out_of_reach 1000
        (addTempModVersion (a_version ''modA'' ''3.0.0'')
           (snd (getAvailableMods some_mods 0 (addTempMod 0 (setUseTempMods True loaded)))))
      = (Inr [a_mod ''modA'' [''1.0.0'', ''2.0.0''], a_mod ''modA'' [''3.0.0'']],
         addTempModVersion (a_version ''modA'' ''3.0.0'')
           (snd (getAvailableMods some_mods 0 (addTempMod 0 (setUseTempMods True loaded)))))
   \<and> requests (addTempModVersion (a_version ''modA'' ''3.0.0'')
           (snd (getAvailableMods some_mods 0 (addTempMod 0 (setUseTempMods True loaded))))) = 1"
proof -
  have a: "(5 * 60 * 1000 :: int) \<le> 300000 - 0
   \<and> getModDownloadLink out_of_reach 300000 ''modA'' ''1.0.0''
        (snd (getModDownloadLink some_mods 0 ''modA'' ''1.0.0'' loaded))
      = (Inr ''https://api.ficsit.app/files/a.zip'',
         snd (getModDownloadLink some_mods 0 ''modA'' ''1.0.0'' loaded))
   \<and> requests (snd (getModDownloadLink some_mods 0 ''modA'' ''1.0.0'' loaded)) = 1"
    by (simp add: getModDownloadLink_def some_mods_def out_of_reach_def loaded_def initial_def
         cooldownPassed_def fetchCooldown_def query_simps getCache_def setCache_def API_URL_def)
  have w: "getModVersions some_mods 0 ''modA'' loaded =
     (Inr (CachedArray ''getModVersions_modA'', map (a_version ''modA'') [''1.0.0'', ''2.0.0'']),
      setCache 0 ''getModVersions_modA'' (VersionsData (map (a_version ''modA'') [''1.0.0'', ''2.0.0'']))
        (loaded\<lparr>requests := 1\<rparr>))"
    by (rule getModVersions_some_mods)
  have hit: "getModVersions out_of_reach 1 ''modA''
               (setCache 0 ''getModVersions_modA''
                  (VersionsData (map (a_version ''modA'') [''1.0.0'', ''2.0.0'']))
                  (loaded\<lparr>requests := 1\<rparr>)) =
             (Inr (CachedArray ''getModVersions_modA'', map (a_version ''modA'') [''1.0.0'', ''2.0.0'']),
              setCache 0 ''getModVersions_modA''
                  (VersionsData (map (a_version ''modA'') [''1.0.0'', ''2.0.0'']))
                  (loaded\<lparr>requests := 1\<rparr>))"
    by (simp add: getModVersions_def cooldownPassed_setCache getCache_setCache fetchCooldown_def Let_def)
  have l: "snd (getModLatestVersion plain out_of_reach 1 ''modA''
              (setCache 0 ''getModVersions_modA''
                 (VersionsData (map (a_version ''modA'') [''1.0.0'', ''2.0.0'']))
                 (loaded\<lparr>requests := 1\<rparr>))) =
           setCache 0 ''getModVersions_modA''
             (VersionsData (map (a_version ''modA'') [''2.0.0'', ''1.0.0'']))
             (loaded\<lparr>requests := 1\<rparr>)"
    unfolding getModLatestVersion_of_versions [OF hit] snd_conv array_sort_two
    by (simp add: mutateCached_setCache)
  have b: "fst (getModVersions some_mods 0 ''modA'' loaded) =
        Inr (CachedArray ''getModVersions_modA'', map (a_version ''modA'') [''1.0.0'', ''2.0.0''])
   \<and> getModVersions out_of_reach 1000 ''modA''
        (snd (getModLatestVersion plain out_of_reach 1 ''modA''
           (snd (getModVersions some_mods 0 ''modA'' loaded))))
      = (Inr (CachedArray ''getModVersions_modA'', map (a_version ''modA'') [''2.0.0'', ''1.0.0'']),
         snd (getModLatestVersion plain out_of_reach 1 ''modA''
           (snd (getModVersions some_mods 0 ''modA'' loaded))))
   \<and> requests (snd (getModLatestVersion plain out_of_reach 1 ''modA''
           (snd (getModVersions some_mods 0 ''modA'' loaded)))) = 1"
    unfolding w snd_conv fst_conv l
    by (simp add: getModVersions_def cooldownPassed_setCache getCache_setCache fetchCooldown_def
          setCache_fields Let_def)
  have c: "fst (getAvailableMods some_mods 0 (addTempMod 0 (setUseTempMods True loaded))) =
        Inr [a_mod ''modA'' [''1.0.0'', ''2.0.0''], a_mod ''modA'' []]
   \<and> getAvailableMods out_of_reach 1000
        (addTempModVersion (a_version ''modA'' ''3.0.0'')
           (snd (getAvailableMods some_mods 0 (addTempMod 0 (setUseTempMods True loaded)))))
      = (Inr [a_mod ''modA'' [''1.0.0'', ''2.0.0''], a_mod ''modA'' [''3.0.0'']],
         addTempModVersion (a_version ''modA'' ''3.0.0'')
           (snd (getAvailableMods some_mods 0 (addTempMod 0 (setUseTempMods True loaded)))))
   \<and> requests (addTempModVersion (a_version ''modA'' ''3.0.0'')
           (snd (getAvailableMods some_mods 0 (addTempMod 0 (setUseTempMods True loaded))))) = 1"
    by (simp add: getAvailableMods_def addTempModVersion_def addTempMod_def setUseTempMods_def
          some_mods_def out_of_reach_def loaded_def initial_def callers_objects_def
          cooldownPassed_def fetchCooldown_def query_simps getCache_def setCache_def
          a_mod_def a_version_def)
  from a b c show ?thesis by simp
qed

text \<open>
  C3. In every state the module can reach, the loader's cache entry holds supported
  versions only (those that \<open>satisfies\<close> puts in the range \<open>>=2.0.0\<close>, the test of the
  code); a fetch stores the response filtered by that test; and no loader query returns a
  version that fails it: \<open>getAvailableSMLVersions\<close>, \<open>getSMLVersionInfo\<close>,
  \<open>getLatestSMLVersion\<close>, and \<open>findAllVersionsMatchingAll\<close> at the loader's identifier,
  whose versions are in the range \<open>>=minSMLVersion\<close> as well.
\<close>

theorem loader_queries_return_supported_versions:
  assumes "reachable I s"
  shows "(\<forall>d. getCache s ''getSMLVersions'' = Some d \<longrightarrow>
            (\<exists>vs. d = SMLVersionsData vs \<and> list_all (\<lambda>v. supported I (version_SML v)) vs))
       \<and> (cooldownPassed s now ''getSMLVersions'' \<and> getSMLVersions_response R = Data svs \<longrightarrow>
            getCache (snd (getAvailableSMLVersions I R now s)) ''getSMLVersions'' =
              Some (SMLVersionsData (map (\<lambda>v. v\<lparr>date_SML := toDate (date_SML v)\<rparr>)
                      (filter (\<lambda>v. supported I (version_SML v)) svs))))
       \<and> (\<forall>vs. fst (getAvailableSMLVersions I R now s) = Inr vs \<longrightarrow>
            list_all (\<lambda>v. supported I (version_SML v)) vs)
       \<and> (\<forall>v. fst (getSMLVersionInfo I R now ver s) = Inr (Some v) \<longrightarrow> supported I (version_SML v))
       \<and> (\<forall>v. fst (getLatestSMLVersion I R now s) = Inr (Some v) \<longrightarrow> supported I (version_SML v))
       \<and> (\<forall>vs. fst (findAllVersionsMatchingAll I R now (SMLModID I) C s) = Inr vs \<longrightarrow>
            list_all (\<lambda>v. supported I v \<and> satisfies I v (''>='' @ minSMLVersion I)) vs)"
proof -
  note kept = reachable_cache_kept [OF assms]
  obtain r s1 where call: "getAvailableSMLVersions I R now s = (r, s1)"
    by (cases "getAvailableSMLVersions I R now s")
  have sup: "list_all (\<lambda>v. supported I (version_SML v)) vs" if "r = Inr vs" for vs
    using getAvailableSMLVersions_supported [OF kept] call that by simp
  have 1: "\<forall>d. getCache s ''getSMLVersions'' = Some d \<longrightarrow>
            (\<exists>vs. d = SMLVersionsData vs \<and> list_all (\<lambda>v. supported I (version_SML v)) vs)"
    using cache_kept_SML [OF kept] by blast
  have 2: "cooldownPassed s now ''getSMLVersions'' \<and> getSMLVersions_response R = Data svs \<longrightarrow>
            getCache (snd (getAvailableSMLVersions I R now s)) ''getSMLVersions'' =
              Some (SMLVersionsData (map (\<lambda>v. v\<lparr>date_SML := toDate (date_SML v)\<rparr>)
                      (filter (\<lambda>v. supported I (version_SML v)) svs)))"
    using getAvailableSMLVersions_fetch by blast
  have 3: "\<forall>vs. fst (getAvailableSMLVersions I R now s) = Inr vs \<longrightarrow>
            list_all (\<lambda>v. supported I (version_SML v)) vs"
    using sup call by simp
  have 4: "\<forall>v. fst (getSMLVersionInfo I R now ver s) = Inr (Some v) \<longrightarrow> supported I (version_SML v)"
  proof (intro allI impI)
    fix v assume "fst (getSMLVersionInfo I R now ver s) = Inr (Some v)"
    with call obtain vs where vs: "r = Inr vs" "find (\<lambda>x. version_SML x = ver) vs = Some v"
      by (cases r) (auto simp: getSMLVersionInfo_def)
    from find_holds [OF vs(2)] sup [OF vs(1)] show "supported I (version_SML v)"
      by (auto simp: list_all_iff)
  qed
  have 5: "\<forall>v. fst (getLatestSMLVersion I R now s) = Inr (Some v) \<longrightarrow> supported I (version_SML v)"
  proof (intro allI impI)
    fix v assume "fst (getLatestSMLVersion I R now s) = Inr (Some v)"
    with call obtain vs where vs: "r = Inr vs"
      "first (array_sort (\<lambda>a b. - compare I (version_SML a) (version_SML b)) vs) = Some v"
      by (cases r) (auto simp: getLatestSMLVersion_def Let_def)
    from first_in_set [OF vs(2)] have "v \<in> set vs" by (simp add: set_array_sort)
    with sup [OF vs(1)] show "supported I (version_SML v)"
      by (simp add: list_all_iff)
  qed
  have 6: "\<forall>vs. fst (findAllVersionsMatchingAll I R now (SMLModID I) C s) = Inr vs \<longrightarrow>
            list_all (\<lambda>v. supported I v \<and> satisfies I v (''>='' @ minSMLVersion I)) vs"
  proof (intro allI impI)
    fix vs assume "fst (findAllVersionsMatchingAll I R now (SMLModID I) C s) = Inr vs"
    with call obtain svs where svs: "r = Inr svs"
      "vs = map version_SML
              (filter (\<lambda>smlVersion. versionSatisfiesAll I (version_SML smlVersion) C)
                (filter (\<lambda>smlVersion. satisfies I (version_SML smlVersion) (''>='' @ minSMLVersion I))
                   svs))"
      by (cases r) (auto simp: findAllVersionsMatchingAll_def)
    from sup [OF svs(1)] show "list_all (\<lambda>v. supported I v \<and> satisfies I v (''>='' @ minSMLVersion I)) vs"
      unfolding svs(2) by (auto simp: list_all_iff)
  qed
  from 1 2 3 4 5 6 show ?thesis by blast
qed

theorem loader_queries_return_supported_versions_witness:
  "reachable plain (perform plain some_mods 0 GetLatestSMLVersion loaded)
   \<and> fst (getAvailableSMLVersions plain out_of_reach 1000
            (perform plain some_mods 0 GetLatestSMLVersion loaded)) =
       Inr (map an_sml_version [''2.1.0'', ''2.0.0''])
   \<and> list_all (\<lambda>v. supported plain (version_SML v)) (map an_sml_version [''2.1.0'', ''2.0.0''])
   \<and> fst (findAllVersionsMatchingAll plain some_mods 0 ''SML'' [''>=1.0.0''] loaded) =
       Inr [''2.0.0'', ''2.1.0'']
   \<and> list_all (\<lambda>v. supported plain v \<and> satisfies plain v (''>='' @ minSMLVersion plain))
        [''2.0.0'', ''2.1.0'']"
proof -
  let ?s = "perform plain some_mods 0 GetLatestSMLVersion loaded"
  have l: "reachable plain loaded"
    unfolding loaded_def by (rule reachable.at_load)
  have r: "reachable plain ?s"
    by (rule reachable.after_call [OF l])
  have e: "fst (getAvailableSMLVersions plain out_of_reach 1000 ?s) =
             Inr (map an_sml_version [''2.1.0'', ''2.0.0''])"
    by (simp add: getLatestSMLVersion_some_mods getAvailableSMLVersions_def cooldownPassed_setCache
          getCache_setCache fetchCooldown_def)
  have f: "fst (findAllVersionsMatchingAll plain some_mods 0 (SMLModID plain) [''>=1.0.0''] loaded) =
             Inr [''2.0.0'', ''2.1.0'']"
    by (simp add: findAllVersionsMatchingAll_def getAvailableSMLVersions_def some_mods_def loaded_def
        initial_def cooldownPassed_def query_simps getCache_def setCache_def Let_def
        versionSatisfiesAll_def an_sml_version_def plain_def plain_satisfies_def plain_compare_def)
  from loader_queries_return_supported_versions [OF r, of 1000 out_of_reach] e
  have "list_all (\<lambda>v. supported plain (version_SML v)) (map an_sml_version [''2.1.0'', ''2.0.0''])"
    by blast
  moreover from loader_queries_return_supported_versions [OF l, of 0 some_mods _ _ "[''>=1.0.0'']"] f
  have "list_all (\<lambda>v. supported plain v \<and> satisfies plain v (''>='' @ minSMLVersion plain))
          [''2.0.0'', ''2.1.0'']"
    by blast
  moreover have "SMLModID plain = ''SML''" by (simp add: plain_def)
  ultimately show ?thesis using r e f by simp
qed

text \<open>
  C4, evaluated. The flag is enabled, the caller's mod object at reference 0 (identifier
  \<open>modA\<close>) is added to the overlay, the flag is disabled. \<open>getModDownloadLink\<close> on a
  registry with no such mod then throws the message for a temporary mod, where with an
  empty overlay it throws the generic one: with the flag disabled its outcome depends on the
  overlay's content.
\<close>

theorem getModDownloadLink_consults_overlay_when_disabled:
  "useTempMods (setUseTempMods False (addTempMod 0 (setUseTempMods True loaded))) = False
   \<and> overlay (setUseTempMods False (addTempMod 0 (setUseTempMods True loaded))) = [a_mod ''modA'' []]
   \<and> fst (getModDownloadLink no_mods 0 ''modA'' ''1.0.0''
        (setUseTempMods False (addTempMod 0 (setUseTempMods True loaded)))) =
     Inl (ModNotFoundError ''modA@1.0.0 is a temporary mod. No download link available'')
   \<and> fst (getModDownloadLink no_mods 0 ''modA'' ''1.0.0'' (setUseTempMods False loaded)) =
     Inl (ModNotFoundError ''modA@1.0.0 not found'')"
  by (simp add: getModDownloadLink_def query_simps cooldownPassed_def addTempMod_def
       setUseTempMods_def loaded_def initial_def no_mods_def a_mod_def callers_objects_def overlay_def)

text \<open>
  C5, as the code has it. \<open>addTempMod\<close> keeps the identifiers of the overlay unique when
  the identifier of the mod added is not in the overlay yet and its own version list has no
  version twice; \<open>addTempModVersion\<close> keeps them unique when no overlay mod with the
  version's \<open>mod_id\<close> holds that version string yet.
\<close>

theorem overlay_unique_after_fresh_additions:
  assumes "unique_overlay s"
  shows "(id_Mod (objects s m) \<notin> id_Mod ` set (overlay s)
            \<and> distinct (map version (versions (objects s m))) \<longrightarrow>
            unique_overlay (addTempMod m s))
       \<and> ((\<forall>tm \<in> set (overlay s). id_Mod tm = mod_id v \<longrightarrow> version v \<notin> version ` set (versions tm)) \<longrightarrow>
            unique_overlay (addTempModVersion v s))"
proof (intro conjI impI)
  assume "id_Mod (objects s m) \<notin> id_Mod ` set (overlay s)
            \<and> distinct (map version (versions (objects s m)))"
  then show "unique_overlay (addTempMod m s)"
    using unique_overlay_addTempMod [OF assms] by simp
next
  assume "\<forall>tm \<in> set (overlay s). id_Mod tm = mod_id v \<longrightarrow> version v \<notin> version ` set (versions tm)"
  then show "unique_overlay (addTempModVersion v s)"
    by (rule unique_overlay_addTempModVersion [OF assms])
qed

theorem overlay_unique_after_fresh_additions_witness:
  "unique_overlay (addTempModVersion (a_version ''modA'' ''1.0.0'')
      (addTempMod 0 (setUseTempMods True loaded)))
   \<and> overlay (addTempModVersion (a_version ''modA'' ''1.0.0'')
      (addTempMod 0 (setUseTempMods True loaded))) = [a_mod ''modA'' [''1.0.0'']]"
proof -
  have 0: "unique_overlay (setUseTempMods True loaded)"
    by (simp add: unique_overlay_def overlay_def setUseTempMods_def loaded_def initial_def)
  have 1: "unique_overlay (addTempMod 0 (setUseTempMods True loaded))"
    using overlay_unique_after_fresh_additions [OF 0, of 0]
    by (simp add: overlay_def setUseTempMods_def loaded_def initial_def a_mod_def callers_objects_def)
  have 2: "unique_overlay (addTempModVersion (a_version ''modA'' ''1.0.0'')
      (addTempMod 0 (setUseTempMods True loaded)))"
    using overlay_unique_after_fresh_additions [OF 1, of _ "a_version ''modA'' ''1.0.0''"]
    by (simp add: overlay_def addTempMod_def setUseTempMods_def loaded_def initial_def a_mod_def
          a_version_def callers_objects_def)
  have 3: "overlay (addTempModVersion (a_version ''modA'' ''1.0.0'')
      (addTempMod 0 (setUseTempMods True loaded))) = [a_mod ''modA'' [''1.0.0'']]"
    by (simp add: overlay_def addTempModVersion_def addTempMod_def setUseTempMods_def loaded_def
          initial_def a_mod_def a_version_def callers_objects_def)
  from 2 3 show ?thesis by (rule conjI)
qed

text \<open>
  C5 as stated fails: the overlay checks nothing, so adding a mod object twice, or two mod
  objects with one identifier, or a version twice, leaves an identifier twice in it.
\<close>

theorem overlay_duplicates_after_two_additions:
  "\<not> unique_overlay (addTempMod 0 (addTempMod 0 (setUseTempMods True loaded)))
   \<and> \<not> unique_overlay (addTempMod 2 (addTempMod 0 (setUseTempMods True loaded)))
   \<and> \<not> unique_overlay (addTempModVersion (a_version ''modA'' ''1.0.0'')
        (addTempModVersion (a_version ''modA'' ''1.0.0'')
          (addTempMod 0 (setUseTempMods True loaded))))"
  by (simp add: unique_overlay_def overlay_def addTempMod_def addTempModVersion_def setUseTempMods_def
       loaded_def initial_def a_mod_def a_version_def callers_objects_def)

text \<open>
  C6. When \<open>getModVersions\<close> returns a non-empty list on whose version strings \<open>compare\<close>
  is a precedence, \<open>getModLatestVersion\<close> returns a record of the list that no record of
  the list exceeds; in particular its version is not one that another version of the list
  exceeds.
\<close>

theorem getModLatestVersion_returns_highest:
  assumes "getModVersions R now modID s = (Inr (place, vs), s1)"
    and "vs \<noteq> []"
    and "precedence_on (version ` set vs) (compare I)"
  shows "\<exists>r. fst (getModLatestVersion I R now modID s) = Inr (Some r) \<and> r \<in> set vs
           \<and> (\<forall>v \<in> set vs. compare I (version v) (version r) \<le> 0)
           \<and> (\<forall>v1 \<in> set vs. \<forall>v2 \<in> set vs.
                 compare I (version v1) (version v2) < 0 \<longrightarrow> version r \<noteq> version v1)"
proof -
  from first_array_sort_highest [OF assms(3,2)]
  obtain r where r: "first (array_sort (\<lambda>a b. - compare I (version a) (version b)) vs) = Some r"
    "r \<in> set vs" "\<forall>v \<in> set vs. compare I (version v) (version r) \<le> 0"
    by blast
  have "\<forall>v1 \<in> set vs. \<forall>v2 \<in> set vs.
          compare I (version v1) (version v2) < 0 \<longrightarrow> version r \<noteq> version v1"
  proof (intro ballI impI notI)
    fix v1 v2
    assume v: "v1 \<in> set vs" "v2 \<in> set vs" and lt: "compare I (version v1) (version v2) < 0"
      and eq: "version r = version v1"
    from v have k: "version v1 \<in> version ` set vs" "version v2 \<in> version ` set vs" by simp_all
    from lt have "0 < compare I (version v2) (version v1)"
      using precedence_on_swap [OF assms(3) k] by simp
    moreover have "compare I (version v2) (version v1) \<le> 0" using r(3) v(2) eq by simp
    ultimately show False by simp
  qed
  with r show ?thesis
    by (simp add: getModLatestVersion_of_versions [OF assms(1)])
qed

theorem getModLatestVersion_returns_highest_witness:
  "fst (getModLatestVersion plain some_mods 0 ''modA'' loaded) = Inr (Some (a_version ''modA'' ''2.0.0''))"
proof -
  have p: "precedence_on (version ` set (map (a_version ''modA'') [''1.0.0'', ''2.0.0''])) (compare plain)"
    by (simp add: plain_def precedence_on_plain_compare)
  from getModLatestVersion_returns_highest [OF getModVersions_some_mods _ p]
  obtain r where r: "fst (getModLatestVersion plain some_mods 0 ''modA'' loaded) = Inr (Some r)"
    "r \<in> set (map (a_version ''modA'') [''1.0.0'', ''2.0.0''])"
    "\<forall>v \<in> set (map (a_version ''modA'') [''1.0.0'', ''2.0.0'']). compare plain (version v) (version r) \<le> 0"
    by auto
  from r(3) have "compare plain ''2.0.0'' (version r) \<le> 0"
    by (simp add: a_version_def)
  with r(2) have "r = a_version ''modA'' ''2.0.0''"
    by (auto simp: a_version_def plain_def plain_compare_def)
  with r(1) show ?thesis by simp
qed

text \<open>
  C7. When the cooldown of the request identity has passed, so that the registry is asked:
  if it reports no mod, \<open>getMod\<close> returns the overlay mod with that identifier (the first
  one) when the overlay is enabled and holds one, and throws \<open>ModNotFoundError\<close>
  otherwise; if it answers with the mod, \<open>getMod\<close> returns that mod, its
  \<open>last_version_date\<close> made a date.
\<close>

theorem getMod_overlay_before_not_found:
  assumes "cooldownPassed s now (''getMod_'' @ modID)"
  shows "(getMod_response R modID = Data None \<and> useTempMods s
            \<and> find (\<lambda>m. id_Mod m = modID) (overlay s) = Some tempMod \<longrightarrow>
            fst (getMod R now modID s) = Inr tempMod \<and> id_Mod tempMod = modID)
       \<and> (getMod_response R modID = Data None
            \<and> \<not> (useTempMods s \<and> (\<exists>m \<in> set (overlay s). id_Mod m = modID)) \<longrightarrow>
            fst (getMod R now modID s) = Inl (ModNotFoundError (''Mod '' @ modID @ '' not found'')))
       \<and> (getMod_response R modID = Data (Some m) \<longrightarrow>
            fst (getMod R now modID s) = Inr (m\<lparr>last_version_date := toDate (last_version_date m)\<rparr>))"
proof (intro conjI impI)
  assume a: "getMod_response R modID = Data None \<and> useTempMods s
            \<and> find (\<lambda>m. id_Mod m = modID) (overlay s) = Some tempMod"
  then obtain a where found: "find (\<lambda>m. id_Mod (objects s m) = modID) (tempMods s) = Some a"
    and obj: "tempMod = objects s a"
    by (auto simp: overlay_def find_map)
  from a found show "fst (getMod R now modID s) = Inr tempMod"
    unfolding obj using getMod_overlay [OF assms] by simp
  from find_holds [OF found] show "id_Mod tempMod = modID"
    unfolding obj by simp
next
  assume "getMod_response R modID = Data None
            \<and> \<not> (useTempMods s \<and> (\<exists>m \<in> set (overlay s). id_Mod m = modID))"
  then show "fst (getMod R now modID s) = Inl (ModNotFoundError (''Mod '' @ modID @ '' not found''))"
    using getMod_not_found [OF assms] by simp
next
  assume "getMod_response R modID = Data (Some m)"
  then show "fst (getMod R now modID s) = Inr (m\<lparr>last_version_date := toDate (last_version_date m)\<rparr>)"
    by (rule getMod_found [OF assms])
qed

theorem getMod_overlay_before_not_found_witness:
  "fst (getMod no_mods 0 ''modA'' (addTempMod 0 (setUseTempMods True loaded)))
     = Inr (a_mod ''modA'' [])
   \<and> fst (getMod no_mods 0 ''modA'' loaded) = Inl (ModNotFoundError ''Mod modA not found'')
   \<and> fst (getMod some_mods 0 ''modA'' loaded) = Inr (a_mod ''modA'' [''1.0.0'', ''2.0.0''])"
proof -
  let ?s = "addTempMod 0 (setUseTempMods True loaded)"
  have overlay: "cooldownPassed ?s 0 (''getMod_'' @ ''modA'')"
    by (simp add: cooldownPassed_def addTempMod_def setUseTempMods_def loaded_def initial_def)
  have empty: "cooldownPassed loaded 0 (''getMod_'' @ ''modA'')"
    by (simp add: cooldownPassed_def loaded_def initial_def)
  have "fst (getMod no_mods 0 ''modA'' ?s) = Inr (a_mod ''modA'' [])"
    using getMod_overlay_before_not_found [OF overlay, of no_mods "a_mod ''modA'' []" "a_mod ''modA'' []"]
    by (simp add: overlay_def addTempMod_def setUseTempMods_def loaded_def initial_def no_mods_def
          a_mod_def callers_objects_def)
  moreover have "fst (getMod no_mods 0 ''modA'' loaded) = Inl (ModNotFoundError ''Mod modA not found'')"
    using getMod_overlay_before_not_found [OF empty, of no_mods "a_mod ''modA'' []" "a_mod ''modA'' []"]
    by (simp add: overlay_def loaded_def initial_def no_mods_def)
  moreover have "fst (getMod some_mods 0 ''modA'' loaded) = Inr (a_mod ''modA'' [''1.0.0'', ''2.0.0''])"
    using getMod_overlay_before_not_found [OF empty, of some_mods "a_mod ''modA'' []" "a_mod ''modA'' [''1.0.0'', ''2.0.0'']"]
    by (simp add: some_mods_def a_mod_def)
  ultimately show ?thesis by simp
qed

text \<open>
  C8. When the cooldown of the request identity has passed and the registry has no mod, or
  no such version of the mod, \<open>getModDownloadLink\<close> throws a \<open>ModNotFoundError\<close>: with
  the message for a temporary mod exactly when the overlay holds a mod with that
  identifier, with the generic message otherwise.
\<close>

theorem getModDownloadLink_not_found_kinds:
  assumes "cooldownPassed s now (''getModDownloadLink_'' @ modID @ ''_'' @ ver)"
    and "getModVersionLink_response R modID ver = Data None
         \<or> getModVersionLink_response R modID ver = Data (Some None)"
  shows "fst (getModDownloadLink R now modID ver s) =
     Inl (ModNotFoundError
       (if \<exists>m \<in> set (overlay s). id_Mod m = modID
        then modID @ ''@'' @ ver @ '' is a temporary mod. No download link available''
        else modID @ ''@'' @ ver @ '' not found''))"
  using assms by (auto simp: getModDownloadLink_def query_simps list_ex_iff overlay_def)

theorem getModDownloadLink_not_found_kinds_witness:
  "fst (getModDownloadLink no_mods 0 ''modA'' ''1.0.0''
          (addTempMod 0 (setUseTempMods True loaded))) =
     Inl (ModNotFoundError ''modA@1.0.0 is a temporary mod. No download link available'')
   \<and> fst (getModDownloadLink no_mods 0 ''modB'' ''1.0.0''
          (addTempMod 0 (setUseTempMods True loaded))) =
     Inl (ModNotFoundError ''modB@1.0.0 not found'')"
  using getModDownloadLink_not_found_kinds [of "addTempMod 0 (setUseTempMods True loaded)" 0 "''modA''" "''1.0.0''" no_mods]
    getModDownloadLink_not_found_kinds [of "addTempMod 0 (setUseTempMods True loaded)" 0 "''modB''" "''1.0.0''" no_mods]
  by (simp add: overlay_def cooldownPassed_def addTempMod_def setUseTempMods_def loaded_def initial_def
        no_mods_def a_mod_def callers_objects_def)




text \<open>
  C10. When the array that \<open>getModLatestVersion\<close>, \<open>getLatestSMLVersion\<close> or
  \<open>getLatestBootstrapperVersion\<close> sorts is the one the cache holds, then after the call
  the cache entry of that request identity holds the sorted array, with the time it had:
  the same records, in descending order when \<open>compare\<close> is a precedence on their
  versions; and a later read within the cooldown returns the sorted array.
\<close>

theorem latest_version_calls_sort_cached_array:
  "(getModVersions R now modID s = (Inr (CachedArray k, vs), s1) \<longrightarrow>
      (let sorted = array_sort (\<lambda>a b. - compare I (version a) (version b)) vs;
           s2 = snd (getModLatestVersion I R now modID s)
       in getCache s2 k = Some (VersionsData sorted)
        \<and> map_option time (cachedFetch s2 k) = map_option time (cachedFetch s1 k)
        \<and> mset sorted = mset vs
        \<and> (precedence_on (version ` set vs) (compare I) \<longrightarrow>
              descending (compare I) (map version sorted))
        \<and> (\<not> cooldownPassed s2 now' k \<longrightarrow>
              fst (getModVersions R' now' modID s2) = Inr (CachedArray k, sorted))))
 \<and> (getAvailableSMLVersions I R now s = (Inr svs, s1) \<longrightarrow>
      (let sorted = array_sort (\<lambda>a b. - compare I (version_SML a) (version_SML b)) svs;
           s2 = snd (getLatestSMLVersion I R now s)
       in getCache s2 ''getSMLVersions'' = Some (SMLVersionsData sorted)
        \<and> map_option time (cachedFetch s2 ''getSMLVersions'') =
            map_option time (cachedFetch s1 ''getSMLVersions'')
        \<and> mset sorted = mset svs
        \<and> (precedence_on (version_SML ` set svs) (compare I) \<longrightarrow>
              descending (compare I) (map version_SML sorted))
        \<and> (\<not> cooldownPassed s2 now' ''getSMLVersions'' \<longrightarrow>
              fst (getAvailableSMLVersions I R' now' s2) = Inr sorted)))
 \<and> (getAvailableBootstrapperVersions R now s = (Inr bvs, s1) \<longrightarrow>
      (let sorted = array_sort (\<lambda>a b. - compare I (version_Bootstrapper a) (version_Bootstrapper b)) bvs;
           s2 = snd (getLatestBootstrapperVersion I R now s)
       in getCache s2 ''getBootstrapperVersions'' = Some (BootstrapperVersionsData sorted)
        \<and> map_option time (cachedFetch s2 ''getBootstrapperVersions'') =
            map_option time (cachedFetch s1 ''getBootstrapperVersions'')
        \<and> mset sorted = mset bvs
        \<and> (precedence_on (version_Bootstrapper ` set bvs) (compare I) \<longrightarrow>
              descending (compare I) (map version_Bootstrapper sorted))
        \<and> (\<not> cooldownPassed s2 now' ''getBootstrapperVersions'' \<longrightarrow>
              fst (getAvailableBootstrapperVersions R' now' s2) = Inr sorted)))"
  by (intro conjI impI sorted_versions_in_cache sorted_sml_versions_in_cache
        sorted_bootstrapper_versions_in_cache)

theorem latest_version_calls_sort_cached_array_witness:
  "getCache (snd (getModVersions some_mods 0 ''modA'' loaded)) ''getModVersions_modA'' =
     Some (VersionsData (map (a_version ''modA'') [''1.0.0'', ''2.0.0'']))
   \<and> getCache (snd (getModLatestVersion plain some_mods 0 ''modA'' loaded)) ''getModVersions_modA'' =
     Some (VersionsData (map (a_version ''modA'') [''2.0.0'', ''1.0.0'']))
   \<and> fst (getModVersions out_of_reach 1000 ''modA''
            (snd (getModLatestVersion plain some_mods 0 ''modA'' loaded))) =
     Inr (CachedArray ''getModVersions_modA'', map (a_version ''modA'') [''2.0.0'', ''1.0.0''])"
proof -
  have fresh: "\<not> cooldownPassed (snd (getModLatestVersion plain some_mods 0 ''modA'' loaded)) 1000
                 ''getModVersions_modA''"
    by (simp add: getModLatestVersion_of_versions [OF getModVersions_some_mods] mutateCached_def
          setCache_def cooldownPassed_def fetchCooldown_def)
  have start: "getModVersions some_mods 0 ''modA'' loaded =
     (Inr (CachedArray ''getModVersions_modA'', map (a_version ''modA'') [''1.0.0'', ''2.0.0'']),
      snd (getModVersions some_mods 0 ''modA'' loaded))"
    by (simp add: getModVersions_some_mods)
  from latest_version_calls_sort_cached_array [of some_mods 0 "''modA''" loaded "''getModVersions_modA''"
      "map (a_version ''modA'') [''1.0.0'', ''2.0.0'']" "snd (getModVersions some_mods 0 ''modA'' loaded)"
      plain 1000 out_of_reach]
    start fresh
  show ?thesis
    unfolding Let_def array_sort_two
    by (simp add: getModVersions_some_mods getCache_setCache)
qed

end
